theory Spec2Isabelle
  imports Complex_Main "HOL-Library.Sublist"
begin

section \<open>Python values\<close>

text \<open>
  The fields of an item descriptor arrive as decoded JSON. The scalar values are modelled:
  \<^verbatim>\<open>None\<close>, booleans, unbounded integers and strings. Strings are ASCII
  (one \<^typ>\<open>char\<close> per code point); floats and nested lists and dictionaries
  are outside the model. A dictionary of scalars is an association list, looked up
  with \<^verbatim>\<open>d.get(k)\<close>, which gives \<^verbatim>\<open>None\<close> for a missing key.
\<close>

datatype pyval = PNone | PBool bool | PInt int | PStr string

type_synonym pydict = "(string \<times> pyval) list"

definition dict_get :: "pydict \<Rightarrow> string \<Rightarrow> pyval" where
  "dict_get d k = (case map_of d k of None \<Rightarrow> PNone | Some v \<Rightarrow> v)"

fun truthy :: "pyval \<Rightarrow> bool" where
  "truthy PNone = False"
| "truthy (PBool b) = b"
| "truthy (PInt n) = (n \<noteq> 0)"
| "truthy (PStr s) = (s \<noteq> [])"

definition py_or :: "pyval \<Rightarrow> pyval \<Rightarrow> pyval" where
  \<comment> \<open>\<^verbatim>\<open>a or b\<close>\<close>
  "py_or a b = (if truthy a then a else b)"

fun py_eq :: "pyval \<Rightarrow> pyval \<Rightarrow> bool" where
  \<comment> \<open>\<^verbatim>\<open>a == b\<close>: a boolean compares as the integer 0 or 1.\<close>
  "py_eq PNone PNone = True"
| "py_eq (PBool a) (PBool b) = (a = b)"
| "py_eq (PBool a) (PInt n) = ((if a then 1 else 0) = n)"
| "py_eq (PInt n) (PBool b) = (n = (if b then 1 else 0))"
| "py_eq (PInt m) (PInt n) = (m = n)"
| "py_eq (PStr s) (PStr t) = (s = t)"
| "py_eq _ _ = False"

definition py_in :: "pyval \<Rightarrow> pyval list \<Rightarrow> bool" where
  \<comment> \<open>\<^verbatim>\<open>x in [a, b, ...]\<close>\<close>
  "py_in x xs = list_ex (py_eq x) xs"

subsection \<open>Decimal text\<close>

definition is_digit :: "char \<Rightarrow> bool" where
  "is_digit c = (c \<in> set ''0123456789'')"

definition digit_val :: "char \<Rightarrow> int" where
  "digit_val c = int (of_char c) - 48"

definition is_space :: "char \<Rightarrow> bool" where
  \<comment> \<open>the ASCII white space that \<^verbatim>\<open>int()\<close> skips: tab, LF, VT, FF, CR, space\<close>
  "is_space c = (c \<in> {CHR 0x09, CHR 0x0A, CHR 0x0B, CHR 0x0C, CHR 0x0D, CHR '' ''})"

definition strip :: "string \<Rightarrow> string" where
  "strip s = rev (dropWhile is_space (rev (dropWhile is_space s)))"

fun parse_digits :: "int \<Rightarrow> bool \<Rightarrow> string \<Rightarrow> int option" where
  \<comment> \<open>Decimal digits with single underscores between digits; the flag says that the
      previous character was a digit.\<close>
  "parse_digits acc prev [] = (if prev then Some acc else None)"
| "parse_digits acc prev (c # cs) =
     (if is_digit c then parse_digits (acc * 10 + digit_val c) True cs
      else if c = CHR ''_'' \<and> prev then parse_digits acc False cs
      else None)"

definition int_of_str :: "string \<Rightarrow> int option" where
  \<comment> \<open>\<^verbatim>\<open>int(s)\<close> on a string; \<open>None\<close> is ValueError.\<close>
  "int_of_str s =
     (case strip s of
        [] \<Rightarrow> None
      | c # cs \<Rightarrow>
          if c = CHR ''-'' then map_option uminus (parse_digits 0 False cs)
          else if c = CHR ''+'' then parse_digits 0 False cs
          else parse_digits 0 False (c # cs))"

fun py_int :: "pyval \<Rightarrow> int option" where
  \<comment> \<open>\<^verbatim>\<open>int(v)\<close>; \<open>None\<close> is ValueError or TypeError, which every caller
      catches together.\<close>
  "py_int PNone = None"
| "py_int (PBool b) = Some (if b then 1 else 0)"
| "py_int (PInt n) = Some n"
| "py_int (PStr s) = int_of_str s"

definition digit_char :: "nat \<Rightarrow> char" where
  "digit_char d = ''0123456789'' ! d"

function str_nat :: "nat \<Rightarrow> string" where
  "str_nat n = (if n < 10 then [digit_char n] else str_nat (n div 10) @ [digit_char (n mod 10)])"
  by pat_completeness auto
termination
  by (relation "measure (\<lambda>n. n)") auto

declare str_nat.simps [simp del]

definition str_int :: "int \<Rightarrow> string" where
  "str_int i = (if i < 0 then CHR ''-'' # str_nat (nat (- i)) else str_nat (nat i))"

fun py_str :: "pyval \<Rightarrow> string" where
  \<comment> \<open>\<^verbatim>\<open>str(v)\<close>\<close>
  "py_str PNone = ''None''"
| "py_str (PBool b) = (if b then ''True'' else ''False'')"
| "py_str (PInt n) = str_int n"
| "py_str (PStr s) = s"

definition upper_char :: "char \<Rightarrow> char" where
  "upper_char c =
     (case map_of (zip ''abcdefghijklmnopqrstuvwxyz'' ''ABCDEFGHIJKLMNOPQRSTUVWXYZ'') c of
        Some u \<Rightarrow> u
      | None \<Rightarrow> c)"

definition upper :: "string \<Rightarrow> string" where
  \<comment> \<open>\<^verbatim>\<open>s.upper()\<close> on ASCII text\<close>
  "upper s = map upper_char s"

section \<open>Content-rating normalization\<close>

datatype log_entry = Unknown_nsfw_warning pyval

definition nsfw_mapping :: "(string \<times> int) list" where
  "nsfw_mapping = [(''NONE'', 0), (''SOFT'', 1), (''MATURE'', 2), (''MATURE+'', 4), (''X'', 5), (''XXX'', 6)]"

definition convert_nsfw_to_level :: "pyval \<Rightarrow> int \<times> log_entry list" where
  \<comment> \<open>\<^verbatim>\<open>CivitaiScraper._convert_nsfw_to_level\<close>: the level, and the warnings
      written to the logger.\<close>
  "convert_nsfw_to_level nsfw_value =
     (if nsfw_value = PNone then (0, [])
      else case py_int nsfw_value of
        Some n \<Rightarrow> (n, [])
      | None \<Rightarrow>
          (let nsfw_str = upper (py_str nsfw_value);
               level = (case map_of nsfw_mapping nsfw_str of None \<Rightarrow> 0 | Some l \<Rightarrow> l)
           in if nsfw_str \<notin> fst ` set nsfw_mapping
              then (level, [Unknown_nsfw_warning nsfw_value])
              else (level, [])))"

definition get_nsfw_folder :: "pyval \<Rightarrow> string" where
  \<comment> \<open>\<^verbatim>\<open>CivitaiScraper._get_nsfw_folder\<close>\<close>
  "get_nsfw_folder nsfw_level =
     (let level = fst (convert_nsfw_to_level nsfw_level)
      in if level \<le> 1 then ''SFW'' else ''NSFW'')"

definition item_nsfw_level :: "pydict \<Rightarrow> int option" where
  \<comment> \<open>The normalized level of an item, as \<^verbatim>\<open>_log_download_db\<close> stores it:
      \<^verbatim>\<open>nsfwLevel or nsfw\<close>, normalized when it is not \<^verbatim>\<open>None\<close>.\<close>
  "item_nsfw_level metadata =
     (let nsfw_raw = py_or (dict_get metadata ''nsfwLevel'') (dict_get metadata ''nsfw'')
      in if nsfw_raw \<noteq> PNone then Some (fst (convert_nsfw_to_level nsfw_raw)) else None)"

section \<open>Pre-download filters of the pagination driver\<close>

definition nsfw_only_filter :: "bool \<Rightarrow> pydict list \<Rightarrow> pydict list" where
  \<comment> \<open>the \<^verbatim>\<open>if nsfw_only:\<close> block of \<^verbatim>\<open>scrape\<close>\<close>
  "nsfw_only_filter nsfw_only items =
     (if nsfw_only
      then filter (\<lambda>item. py_in (dict_get item ''nsfwLevel'') [PInt 5, PInt 6]
                       \<or> py_in (dict_get item ''nsfw'') [PStr ''X'', PStr ''XXX'']) items
      else items)"

definition side_or_zero :: "pyval \<Rightarrow> int option" where
  \<comment> \<open>\<^verbatim>\<open>int(v) if v else 0\<close>; \<open>None\<close> is the ValueError or TypeError.\<close>
  "side_or_zero v = (if truthy v then py_int v else Some 0)"

definition resolution_ok :: "int \<Rightarrow> pydict \<Rightarrow> bool" where
  \<comment> \<open>One round of the loop body: does the item reach \<^verbatim>\<open>filtered_items.append\<close>?
      An exception in either conversion skips the item.\<close>
  "resolution_ok min_resolution item =
     (case side_or_zero (dict_get item ''width'') of
        None \<Rightarrow> False
      | Some width \<Rightarrow>
          (case side_or_zero (dict_get item ''height'') of
             None \<Rightarrow> False
           | Some height \<Rightarrow> max width height \<ge> min_resolution))"

definition min_resolution_filter :: "int option \<Rightarrow> pydict list \<Rightarrow> pydict list" where
  \<comment> \<open>the \<^verbatim>\<open>if min_resolution:\<close> block of \<^verbatim>\<open>scrape\<close>; the threshold is
      \<^verbatim>\<open>Optional[int]\<close>, and both \<^verbatim>\<open>None\<close> and 0 switch the filter off.\<close>
  "min_resolution_filter min_resolution items =
     (case min_resolution of
        None \<Rightarrow> items
      | Some t \<Rightarrow> if t \<noteq> 0 then filter (resolution_ok t) items else items)"

section \<open>Byte strings\<close>

text \<open>
  A Python \<^verbatim>\<open>bytes\<close> object is a list of 8-bit characters. The three
  operations the sniffer uses are slicing, \<^verbatim>\<open>startswith\<close> and the
  containment test \<^verbatim>\<open>needle in haystack\<close>.
\<close>

type_synonym bytes = "char list"

definition slice :: "nat \<Rightarrow> nat \<Rightarrow> 'a list \<Rightarrow> 'a list" where
  \<comment> \<open>\<^verbatim>\<open>data[i:j]\<close> for \<open>0 \<le> i \<le> j\<close>: short data gives a short slice, never an error.\<close>
  "slice i j data = take (j - i) (drop i data)"

definition startswith :: "'a list \<Rightarrow> 'a list \<Rightarrow> bool" where
  "startswith data p = (take (length p) data = p)"

fun contains :: "'a list \<Rightarrow> 'a list \<Rightarrow> bool" where
  \<comment> \<open>\<^verbatim>\<open>needle in haystack\<close>: the needle occurs as a contiguous run.\<close>
  "contains needle [] = (needle = [])"
| "contains needle (x # xs) = (startswith (x # xs) needle \<or> contains needle xs)"

section \<open>Content sniffer\<close>

definition png_signature :: bytes where
  \<comment> \<open>\<^verbatim>\<open>b'\x89PNG\r\n\x1a\n'\<close>\<close>
  "png_signature = [CHR 0x89, CHR ''P'', CHR ''N'', CHR ''G'', CHR 0x0D, CHR 0x0A, CHR 0x1A, CHR 0x0A]"

definition detect_image_format :: "bytes \<Rightarrow> string \<times> bool" where
  \<comment> \<open>\<^verbatim>\<open>CivitaiScraper._detect_image_format\<close>: (extension, is\_video).\<close>
  "detect_image_format data =
    (if slice 4 12 data = ''ftypmp42'' \<or> slice 4 12 data = ''ftypisom'' then (''.mp4'', True)
     else if take 4 data = [CHR 0x1A, CHR 0x45, CHR 0xDF, CHR 0xA3] then (''.webm'', True)
     else if take 3 data = ''FLV'' then (''.flv'', True)
     else if startswith data png_signature then (''.png'', False)
     else if startswith data [CHR 0xFF, CHR 0xD8, CHR 0xFF] then (''.jpg'', False)
     else if startswith data ''RIFF'' \<and> contains ''WEBP'' (take 12 data) then (''.webp'', False)
     else if startswith data ''GIF87a'' \<or> startswith data ''GIF89a'' then (''.gif'', False)
     else (''.jpg'', False))"

subsection \<open>The sniffer as the specification words it\<close>

definition at_offset :: "nat \<Rightarrow> bytes \<Rightarrow> bytes \<Rightarrow> bool" where
  \<comment> \<open>the signature occupies the bytes from position \<open>n\<close> on\<close>
  "at_offset n sig data = (\<exists>pre rest. length pre = n \<and> data = pre @ sig @ rest)"

definition classify_spec :: "bytes \<Rightarrow> string \<times> bool" where
  \<comment> \<open>The rule list of the specification, first match wins. Signatures are written as
      the hexadecimal bytes the specification gives.\<close>
  "classify_spec data =
    (if at_offset 4 ''ftypmp42'' data \<or> at_offset 4 ''ftypisom'' data then (''.mp4'', True)
     else if prefix [CHR 0x1A, CHR 0x45, CHR 0xDF, CHR 0xA3] data then (''.webm'', True)
     else if prefix ''FLV'' data then (''.flv'', True)
     else if prefix [CHR 0x89, CHR 0x50, CHR 0x4E, CHR 0x47, CHR 0x0D, CHR 0x0A, CHR 0x1A, CHR 0x0A] data
       then (''.png'', False)
     else if prefix [CHR 0xFF, CHR 0xD8, CHR 0xFF] data then (''.jpg'', False)
     else if prefix ''RIFF'' data \<and> sublist ''WEBP'' (take 12 data) then (''.webp'', False)
     else if prefix ''GIF87a'' data \<or> prefix ''GIF89a'' data then (''.gif'', False)
     else (''.jpg'', False))"

section \<open>Paths and files\<close>

text \<open>
  Paths are strings and \<^verbatim>\<open>dir / name\<close> joins with a slash. The file system is a map
  from path to file content; directories are not modelled, so \<^verbatim>\<open>mkdir\<close> has no
  effect here.
\<close>

definition path_join :: "string \<Rightarrow> string \<Rightarrow> string" where
  "path_join dir name = dir @ ''/'' @ name"

fun rfind_from :: "char \<Rightarrow> nat \<Rightarrow> nat option \<Rightarrow> string \<Rightarrow> nat option" where
  "rfind_from c i best [] = best"
| "rfind_from c i best (x # xs) = rfind_from c (Suc i) (if x = c then Some i else best) xs"

definition rfind :: "char \<Rightarrow> string \<Rightarrow> nat option" where
  \<comment> \<open>\<^verbatim>\<open>s.rfind(c)\<close>, with \<open>None\<close> for -1\<close>
  "rfind c s = rfind_from c 0 None s"

definition splitext_root :: "string \<Rightarrow> string" where
  \<comment> \<open>\<^verbatim>\<open>os.path.splitext(p)[0]\<close>: cut at the last dot of the last component, unless
      that component has only dots before it.\<close>
  "splitext_root p =
     (case rfind CHR ''.'' p of
        None \<Rightarrow> p
      | Some dotIndex \<Rightarrow>
          (let filenameIndex = (case rfind CHR ''/'' p of None \<Rightarrow> 0 | Some sepIndex \<Rightarrow> sepIndex + 1)
           in if filenameIndex \<le> dotIndex
                 \<and> list_ex (\<lambda>c. c \<noteq> CHR ''.'') (slice filenameIndex dotIndex p)
              then take dotIndex p
              else p))"

type_synonym filesystem = "string \<rightharpoonup> bytes"

definition stat_size :: "filesystem \<Rightarrow> string \<Rightarrow> nat option" where
  \<comment> \<open>\<^verbatim>\<open>path.stat().st_size\<close>; \<open>None\<close> is FileNotFoundError.\<close>
  "stat_size fs path = map_option length (fs path)"

definition file_not_found :: "string \<Rightarrow> string" where
  \<comment> \<open>the text of the FileNotFoundError, without the quotes Python puts around the path\<close>
  "file_not_found path = ''[Errno 2] No such file or directory: '' @ path"

section \<open>The download ledger\<close>

text \<open>
  One row of the \<^verbatim>\<open>downloads\<close> table, keyed by \<^verbatim>\<open>str(image_id)\<close>. The columns
  \<^verbatim>\<open>file_extension\<close>, \<^verbatim>\<open>download_timestamp\<close> and \<^verbatim>\<open>reaction_total\<close> and the
  tables for metadata, generation parameters and tags are left out. A write raises
  for an integer that does not fit a 64-bit column, for a null URL, and for a
  \<^verbatim>\<open>stats\<close>, \<^verbatim>\<open>meta\<close> or \<^verbatim>\<open>tags\<close> entry that is a scalar without the
  method called on it; a locked or damaged database is not modelled.
\<close>

record download_row =
  row_url :: pyval
  row_filename :: string
  row_file_size :: nat
  row_width :: "int option"
  row_height :: "int option"
  row_nsfw_level :: "int option"
  row_status :: string
  row_error_message :: "string option"
  row_folder_path :: "string option"

type_synonym ledger = "string \<rightharpoonup> download_row"

datatype history = Database ledger | Text_log "string set"

definition is_downloaded_db :: "ledger \<Rightarrow> pyval \<Rightarrow> bool" where
  \<comment> \<open>\<^verbatim>\<open>CivitaiScraper._is_downloaded_db\<close>\<close>
  "is_downloaded_db db image_id =
     (case db (py_str image_id) of
        None \<Rightarrow> False
      | Some r \<Rightarrow> row_status r = ''success'' \<or> row_status r = ''migrated'')"

definition dict_truthy :: "pydict option \<Rightarrow> bool" where
  \<comment> \<open>\<^verbatim>\<open>if metadata:\<close> for \<^verbatim>\<open>None\<close> or a dictionary\<close>
  "dict_truthy metadata = (case metadata of None \<Rightarrow> False | Some d \<Rightarrow> d \<noteq> [])"

definition ledger_dimension :: "pyval \<Rightarrow> int option" where
  \<comment> \<open>\<^verbatim>\<open>int(v) if v else None\<close>, a ValueError or TypeError giving \<^verbatim>\<open>None\<close>\<close>
  "ledger_dimension v = (if truthy v then py_int v else None)"

definition sqlite_int :: "int \<Rightarrow> bool" where
  \<comment> \<open>what an INTEGER column takes: a signed 64-bit value\<close>
  "sqlite_int n = (- (2 ^ 63) \<le> n \<and> n < 2 ^ 63)"

fun bindable :: "pyval \<Rightarrow> bool" where
  \<comment> \<open>can the value be bound to a statement parameter?\<close>
  "bindable (PInt n) = sqlite_int n"
| "bindable _ = True"

definition bindable_opt :: "int option \<Rightarrow> bool" where
  "bindable_opt v = (case v of None \<Rightarrow> True | Some n \<Rightarrow> sqlite_int n)"

definition overflow_error :: string where
  \<comment> \<open>the text of the OverflowError that \<^verbatim>\<open>cursor.execute\<close> raises\<close>
  "overflow_error = ''Python int too large to convert to SQLite INTEGER''"

definition not_null_error :: string where
  \<comment> \<open>the text of the IntegrityError for the column \<^verbatim>\<open>url TEXT NOT NULL\<close>\<close>
  "not_null_error = ''NOT NULL constraint failed: downloads.url''"

fun type_name :: "pyval \<Rightarrow> string" where
  \<comment> \<open>\<^verbatim>\<open>type(v).__name__\<close>\<close>
  "type_name PNone = ''NoneType''"
| "type_name (PBool _) = ''bool''"
| "type_name (PInt _) = ''int''"
| "type_name (PStr _) = ''str''"

definition no_attribute :: "pyval \<Rightarrow> string \<Rightarrow> string" where
  \<comment> \<open>the text of the AttributeError for a method that the value does not have\<close>
  "no_attribute v a =
     [CHR 0x27] @ type_name v @ [CHR 0x27] @ '' object has no attribute '' @ [CHR 0x27] @ a @ [CHR 0x27]"

definition no_len :: "pyval \<Rightarrow> string" where
  \<comment> \<open>the text of the TypeError of \<^verbatim>\<open>len(v)\<close>\<close>
  "no_len v = ''object of type '' @ [CHR 0x27] @ type_name v @ [CHR 0x27] @ '' has no len()''"

fun sized :: "pyval \<Rightarrow> bool" where
  \<comment> \<open>does \<^verbatim>\<open>len(v)\<close> return? Of the values here only a string has a length.\<close>
  "sized (PStr _) = True"
| "sized _ = False"

definition log_download_db ::
  "ledger \<Rightarrow> pyval \<Rightarrow> pyval \<Rightarrow> string \<Rightarrow> nat \<Rightarrow> pydict option \<Rightarrow> string \<Rightarrow> string option
     \<Rightarrow> string option \<Rightarrow> (string \<times> ledger) + ledger" where
  \<comment> \<open>\<^verbatim>\<open>CivitaiScraper._log_download_db\<close>: INSERT OR REPLACE of the row. \<open>Inr\<close> is the
      ledger after a call that returns, \<open>Inl\<close> the text of the exception of a call that
      raises, with the ledger as the call leaves it. The values of a dictionary are
      scalars here, so a true \<^verbatim>\<open>stats\<close> entry has no \<^verbatim>\<open>get\<close>, a true
      \<^verbatim>\<open>meta\<close> entry no \<^verbatim>\<open>keys\<close>, and a true \<^verbatim>\<open>tags\<close> entry that is not a
      string no length: the first raises before the row is written, the other two after
      the commit. An integer outside the 64-bit range makes \<^verbatim>\<open>cursor.execute\<close> raise
      while the parameters are bound, and a null URL when the row is checked, both before
      anything is written. The tables of tags, generation parameters and raw
      metadata are not part of the ledger.\<close>
  "log_download_db db image_id url filename file_size metadata status error folder_path =
     (let d = (case metadata of None \<Rightarrow> [] | Some m \<Rightarrow> m);
          width = (if dict_truthy metadata then ledger_dimension (dict_get d ''width'') else None);
          height = (if dict_truthy metadata then ledger_dimension (dict_get d ''height'') else None);
          nsfw_level = (if dict_truthy metadata then item_nsfw_level d else None);
          stats = (if dict_truthy metadata then dict_get d ''stats'' else PNone);
          meta = dict_get d ''meta'';
          tags = dict_get d ''tags'';
          db' = db(py_str image_id \<mapsto>
                \<lparr>row_url = url, row_filename = filename, row_file_size = file_size,
                 row_width = width, row_height = height, row_nsfw_level = nsfw_level,
                 row_status = status, row_error_message = error, row_folder_path = folder_path\<rparr>)
      in if truthy stats then Inl (no_attribute stats ''get'', db)
         else if \<not> (bindable url \<and> sqlite_int (int file_size) \<and> bindable_opt width
                     \<and> bindable_opt height \<and> bindable_opt nsfw_level)
         then Inl (overflow_error, db)
         else if url = PNone then Inl (not_null_error, db)
         else if dict_truthy metadata \<and> status = ''success''
         then (if truthy meta then Inl (no_attribute meta ''keys'', db')
               else if truthy tags \<and> \<not> sized tags then Inl (no_len tags, db')
               else Inr db')
         else Inr db')"

section \<open>The scraper and its surroundings\<close>

text \<open>
  The fields of \<^verbatim>\<open>CivitaiScraper\<close> that the download path reads or writes, together
  with what it touches outside: the files, the list of URLs requested so far and the
  list of \<^verbatim>\<open>time.sleep\<close> durations, taken as exact reals. \<^verbatim>\<open>use_database\<close>
  is the constructor of \<open>history\<close>, which stands for the database or for the text log
  with its set \<^verbatim>\<open>downloaded_ids\<close>; \<open>files\<close> holds the payload and metadata files
  only. Log messages are left out. Workers run one after another here; the locks are
  not modelled.
\<close>

record scraper =
  output_dir :: string
  allowed_types :: "string list option"
  dry_run :: bool
  organize_by_nsfw :: bool
  enable_retry :: bool
  max_retries :: int
  history :: history
  downloaded_count :: nat
  skipped_count :: nat
  failed_count :: nat
  filtered_type_count :: nat
  total_downloaded :: nat
  total_bytes :: nat
  files :: filesystem
  requests :: "pyval list"
  sleeps :: "real list"

datatype response = Failed string | Body "bytes list"

record env =
  remote :: "nat \<Rightarrow> pyval \<Rightarrow> response"
  json_dump :: "pydict \<Rightarrow> bytes"

text \<open>
  \<open>remote env n url\<close> is what the streaming GET of \<open>url\<close> gives when \<open>n\<close> requests were
  made before it: an exception with its text, or the chunks of the body.
\<close>

definition videos_dir :: "scraper \<Rightarrow> string" where
  "videos_dir s = path_join (output_dir s) ''videos''"

definition metadata_dir :: "scraper \<Rightarrow> string" where
  "metadata_dir s = path_join (output_dir s) ''metadata''"

definition temp_filepath :: "scraper \<Rightarrow> string \<Rightarrow> string" where
  "temp_filepath s filename = path_join (output_dir s) (''temp_'' @ filename)"

definition already_downloaded :: "scraper \<Rightarrow> pyval \<Rightarrow> string option" where
  \<comment> \<open>The duplicate check at the head of \<^verbatim>\<open>download_image\<close>: the status it returns
      with, if it returns there.\<close>
  "already_downloaded s image_id =
     (if truthy image_id
      then (case history s of
              Database db \<Rightarrow>
                if is_downloaded_db db image_id then Some ''skipped (in database)'' else None
            | Text_log downloaded_ids \<Rightarrow>
                if py_str image_id \<in> downloaded_ids then Some ''skipped (in log)'' else None)
      else None)"

definition nsfw_raw_of :: "pydict option \<Rightarrow> pyval" where
  \<comment> \<open>\<^verbatim>\<open>metadata.get('nsfwLevel') or metadata.get('nsfw') if metadata else None\<close>\<close>
  "nsfw_raw_of metadata =
     (case metadata of
        None \<Rightarrow> PNone
      | Some m \<Rightarrow> if m \<noteq> [] then py_or (dict_get m ''nsfwLevel'') (dict_get m ''nsfw'') else PNone)"

definition target_paths ::
  "scraper \<Rightarrow> string \<Rightarrow> pydict option \<Rightarrow> string \<Rightarrow> bool \<Rightarrow> string \<times> string \<times> string option" where
  \<comment> \<open>The final path, the path of the metadata file and the folder recorded in the
      ledger.\<close>
  "target_paths s filename metadata actual_extension is_video =
     (let base_name = splitext_root filename;
          correct_filename = base_name @ actual_extension
      in if organize_by_nsfw s
         then (let nsfw_folder = get_nsfw_folder (nsfw_raw_of metadata);
                   filepath = (if is_video
                               then path_join (path_join (videos_dir s) nsfw_folder) correct_filename
                               else path_join (path_join (output_dir s) nsfw_folder) correct_filename);
                   meta_path = path_join (path_join (path_join (output_dir s) nsfw_folder) ''metadata'')
                                 (base_name @ ''.json'');
                   folder_path = (if is_video then path_join ''videos'' nsfw_folder else nsfw_folder)
               in (filepath, meta_path, Some folder_path))
         else (if is_video then path_join (videos_dir s) correct_filename
               else path_join (output_dir s) correct_filename,
               path_join (metadata_dir s) (base_name @ ''.json''),
               None))"

definition exception_exit :: "string \<Rightarrow> string \<Rightarrow> scraper \<Rightarrow> (bool \<times> string) \<times> scraper" where
  \<comment> \<open>the \<^verbatim>\<open>except Exception as e\<close> handler\<close>
  "exception_exit temp e s =
     ((False, ''error: '' @ e),
      s\<lparr>files := (files s)(temp := None), failed_count := failed_count s + 1\<rparr>)"

definition exists_branch ::
  "pyval \<Rightarrow> pydict option \<Rightarrow> pyval \<Rightarrow> string \<Rightarrow> string \<Rightarrow> string option \<Rightarrow> scraper
     \<Rightarrow> (bool \<times> string) \<times> scraper" where
  \<comment> \<open>the body of \<^verbatim>\<open>if filepath.exists():\<close>\<close>
  "exists_branch url metadata image_id temp filepath folder_path s =
     (let s1 = s\<lparr>files := (files s)(temp := None)\<rparr>;
          skipped = (\<lambda>t. ((True, ''skipped (exists)''), t\<lparr>skipped_count := skipped_count t + 1\<rparr>))
      in if truthy image_id
         then (case history s1 of
                 Database db \<Rightarrow>
                   if \<not> is_downloaded_db db image_id
                   then (case stat_size (files s1) filepath of
                           None \<Rightarrow> exception_exit temp (file_not_found filepath) s1
                         | Some file_size \<Rightarrow>
                             (case log_download_db db image_id url filepath file_size metadata
                                     ''success'' None folder_path of
                                Inl (err, db') \<Rightarrow> exception_exit temp err (s1\<lparr>history := Database db'\<rparr>)
                              | Inr db' \<Rightarrow> skipped (s1\<lparr>history := Database db'\<rparr>)))
                   else skipped s1
               | Text_log downloaded_ids \<Rightarrow>
                   if py_str image_id \<notin> downloaded_ids
                   then skipped (s1\<lparr>history := Text_log (insert (py_str image_id) downloaded_ids)\<rparr>)
                   else skipped s1)
         else skipped s1)"

definition place_branch ::
  "env \<Rightarrow> pyval \<Rightarrow> pydict option \<Rightarrow> pyval \<Rightarrow> string \<Rightarrow> string \<Rightarrow> string \<Rightarrow> string option
     \<Rightarrow> bytes \<Rightarrow> scraper \<Rightarrow> (bool \<times> string) \<times> scraper" where
  \<comment> \<open>rename into place, write the metadata file, log, count\<close>
  "place_branch e url metadata image_id temp filepath meta_path folder_path payload s =
     (let s1 = s\<lparr>files := ((files s)(temp := None))(filepath \<mapsto> payload)\<rparr>;
          s2 = (case metadata of
                  None \<Rightarrow> s1
                | Some m \<Rightarrow> if m \<noteq> [] then s1\<lparr>files := (files s1)(meta_path \<mapsto> json_dump e m)\<rparr> else s1)
      in case stat_size (files s2) filepath of
           None \<Rightarrow> exception_exit temp (file_not_found filepath) s2
         | Some file_size \<Rightarrow>
             (let downloaded = (\<lambda>t. ((True, ''downloaded''),
                                     t\<lparr>downloaded_count := downloaded_count t + 1,
                                       total_downloaded := total_downloaded t + 1,
                                       total_bytes := total_bytes t + file_size\<rparr>))
              in if truthy image_id
                 then (case history s2 of
                         Database db \<Rightarrow>
                           (case log_download_db db image_id url filepath file_size metadata
                                   ''success'' None folder_path of
                              Inl (err, db') \<Rightarrow> exception_exit temp err (s2\<lparr>history := Database db'\<rparr>)
                            | Inr db' \<Rightarrow> downloaded (s2\<lparr>history := Database db'\<rparr>))
                       | Text_log downloaded_ids \<Rightarrow>
                           downloaded (s2\<lparr>history := Text_log (insert (py_str image_id) downloaded_ids)\<rparr>))
                 else downloaded s2))"

definition after_fetch ::
  "env \<Rightarrow> pyval \<Rightarrow> string \<Rightarrow> pydict option \<Rightarrow> pyval \<Rightarrow> string \<Rightarrow> bytes list \<Rightarrow> scraper
     \<Rightarrow> (bool \<times> string) \<times> scraper" where
  \<comment> \<open>the \<^verbatim>\<open>try\<close> block from the write of the temporary file on\<close>
  "after_fetch e url filename metadata image_id temp chunks s =
     (let s1 = s\<lparr>files := (files s)(temp \<mapsto> concat chunks)\<rparr>;
          first_chunk = (case chunks of [] \<Rightarrow> [] | c # _ \<Rightarrow> c)
      in if first_chunk \<noteq> []
         then (let actual_extension = fst (detect_image_format first_chunk);
                   is_video = snd (detect_image_format first_chunk);
                   ext_without_dot = dropWhile (\<lambda>c. c = CHR ''.'') actual_extension
               in if (case allowed_types s1 of None \<Rightarrow> False | Some al \<Rightarrow> ext_without_dot \<notin> set al)
                  then ((True, ''skipped (type: '' @ ext_without_dot @ '')''),
                        s1\<lparr>files := (files s1)(temp := None),
                           filtered_type_count := filtered_type_count s1 + 1\<rparr>)
                  else (let paths = target_paths s1 filename metadata actual_extension is_video;
                            filepath = fst paths;
                            meta_path = fst (snd paths);
                            folder_path = snd (snd paths)
                        in if files s1 filepath \<noteq> None
                           then exists_branch url metadata image_id temp filepath folder_path s1
                           else place_branch e url metadata image_id temp filepath meta_path
                                  folder_path (concat chunks) s1))
         else ((False, ''error: empty file''),
               s1\<lparr>files := (files s1)(temp := None), failed_count := failed_count s1 + 1\<rparr>))"

definition download_image ::
  "env \<Rightarrow> pyval \<Rightarrow> string \<Rightarrow> pydict option \<Rightarrow> pyval \<Rightarrow> scraper \<Rightarrow> (bool \<times> string) \<times> scraper" where
  \<comment> \<open>\<^verbatim>\<open>CivitaiScraper.download_image\<close>: (success, status) and the scraper afterwards\<close>
  "download_image e url filename metadata image_id s =
     (case already_downloaded s image_id of
        Some status \<Rightarrow> ((True, status), s\<lparr>skipped_count := skipped_count s + 1\<rparr>)
      | None \<Rightarrow>
          if dry_run s
          then ((True, ''simulated''), s\<lparr>downloaded_count := downloaded_count s + 1\<rparr>)
          else (let temp = temp_filepath s filename;
                    s1 = s\<lparr>requests := requests s @ [url]\<rparr>
                in case remote e (length (requests s)) url of
                     Failed err \<Rightarrow> exception_exit temp err s1
                   | Body chunks \<Rightarrow> after_fetch e url filename metadata image_id temp chunks s1))"

section \<open>Retry wrapper\<close>

function retry_loop ::
  "env \<Rightarrow> pyval \<Rightarrow> string \<Rightarrow> pydict option \<Rightarrow> pyval \<Rightarrow> int \<Rightarrow> real \<Rightarrow> int \<Rightarrow> string option
     \<Rightarrow> scraper \<Rightarrow> (bool \<times> string) \<times> scraper" where
  "retry_loop e url filename metadata image_id retries backoff_factor attempt last_error s =
     (if retries < attempt
      then ((False, ''failed after '' @ str_int retries @ '' retries: ''
                      @ (case last_error of None \<Rightarrow> ''None'' | Some err \<Rightarrow> err)), s)
      else (let r = download_image e url filename metadata image_id s;
                success = fst (fst r);
                status = snd (fst r);
                s1 = snd r
            in if success \<or> startswith status ''skipped''
               then ((success, status), s1)
               else retry_loop e url filename metadata image_id retries backoff_factor
                      (attempt + 1) (Some status)
                      (if attempt < retries
                       then s1\<lparr>sleeps := sleeps s1 @ [backoff_factor ^ nat (attempt - 1)]\<rparr>
                       else s1)))"
  by pat_completeness auto
termination
  by (relation "measure (\<lambda>(e, url, filename, metadata, image_id, retries, backoff_factor,
        attempt, last_error, s). nat (retries + 1 - attempt))") auto

declare retry_loop.simps [simp del]

definition download_with_retry ::
  "env \<Rightarrow> pyval \<Rightarrow> string \<Rightarrow> pydict option \<Rightarrow> pyval \<Rightarrow> int \<Rightarrow> real \<Rightarrow> scraper
     \<Rightarrow> (bool \<times> string) \<times> scraper" where
  \<comment> \<open>\<^verbatim>\<open>CivitaiScraper._download_with_retry\<close>, \<open>retries\<close> being its parameter
      \<^verbatim>\<open>max_retries\<close>: the loop over
      \<^verbatim>\<open>range(1, max_retries + 1)\<close>. \<^verbatim>\<open>download_image\<close> raises nothing in this model, so
      the second handler of the loop is never entered.\<close>
  "download_with_retry e url filename metadata image_id retries backoff_factor s =
     retry_loop e url filename metadata image_id retries backoff_factor 1 None s"

primrec state_before_attempt ::
  "env \<Rightarrow> pyval \<Rightarrow> string \<Rightarrow> pydict option \<Rightarrow> pyval \<Rightarrow> real \<Rightarrow> scraper \<Rightarrow> nat \<Rightarrow> scraper" where
  \<comment> \<open>The scraper in which attempt number \<open>k + 1\<close> starts when the \<open>k\<close> attempts before it
      were made and each was followed by its sleep: attempt \<open>k\<close> is followed by a sleep
      of the back-off factor to the power \<open>k - 1\<close>.\<close>
  "state_before_attempt e url filename metadata image_id backoff_factor s 0 = s"
| "state_before_attempt e url filename metadata image_id backoff_factor s (Suc k) =
     (let after = snd (download_image e url filename metadata image_id
                    (state_before_attempt e url filename metadata image_id backoff_factor s k))
      in after\<lparr>sleeps := sleeps after @ [backoff_factor ^ k]\<rparr>)"

definition attempt_outcome ::
  "env \<Rightarrow> pyval \<Rightarrow> string \<Rightarrow> pydict option \<Rightarrow> pyval \<Rightarrow> real \<Rightarrow> scraper \<Rightarrow> nat
     \<Rightarrow> (bool \<times> string) \<times> scraper" where
  \<comment> \<open>what attempt number \<open>k + 1\<close> gives there\<close>
  "attempt_outcome e url filename metadata image_id backoff_factor s k =
     download_image e url filename metadata image_id
       (state_before_attempt e url filename metadata image_id backoff_factor s k)"

section \<open>Batch dispatcher\<close>

type_synonym task = "pyval \<times> string \<times> pydict option \<times> pyval"

definition make_task :: "bool \<Rightarrow> pydict \<Rightarrow> task" where
  \<comment> \<open>one round of the first loop of \<^verbatim>\<open>_download_batch\<close>; nested values (stats, meta,
      tags) are carried as the scalar the item holds\<close>
  "make_task save_metadata item =
     (let image_id = dict_get item ''id'';
          image_url = dict_get item ''url'';
          filename = ''civitai_'' @ py_str image_id @ ''.tmp'';
          metadata =
            (if save_metadata
             then Some [(''id'', image_id), (''url'', image_url),
                        (''width'', dict_get item ''width''), (''height'', dict_get item ''height''),
                        (''hash'', dict_get item ''hash''), (''nsfw'', dict_get item ''nsfw''),
                        (''nsfwLevel'', dict_get item ''nsfwLevel''),
                        (''createdAt'', dict_get item ''createdAt''),
                        (''postId'', dict_get item ''postId''),
                        (''username'', dict_get item ''username''),
                        (''stats'', dict_get item ''stats''), (''meta'', dict_get item ''meta''),
                        (''tags'', dict_get item ''tags'')]
             else None)
      in (image_url, filename, metadata, image_id))"

definition download_tasks :: "bool \<Rightarrow> pydict list \<Rightarrow> task list" where
  \<comment> \<open>items without a URL are passed over\<close>
  "download_tasks save_metadata items =
     map (make_task save_metadata) (filter (\<lambda>item. truthy (dict_get item ''url'')) items)"

definition run_task :: "env \<Rightarrow> task \<Rightarrow> scraper \<Rightarrow> (bool \<times> string) \<times> scraper" where
  \<comment> \<open>what one worker is submitted with; the back-off factor is the default 2.0\<close>
  "run_task e t s =
     (case t of (url, fname, meta, img_id) \<Rightarrow>
        if enable_retry s
        then download_with_retry e url fname meta img_id (max_retries s) 2 s
        else download_image e url fname meta img_id s)"

fun run_tasks :: "env \<Rightarrow> task list \<Rightarrow> scraper \<Rightarrow> (bool \<times> string) list \<times> scraper" where
  "run_tasks e [] s = ([], s)"
| "run_tasks e (t # ts) s =
     (let r = run_task e t s;
          rest = run_tasks e ts (snd r)
      in (fst r # fst rest, snd rest))"

definition download_batch :: "env \<Rightarrow> pydict list \<Rightarrow> bool \<Rightarrow> scraper \<Rightarrow> nat \<times> scraper" where
  \<comment> \<open>\<^verbatim>\<open>CivitaiScraper._download_batch\<close> without a progress bar, not paused and not
      stopped, the tasks run in submission order: the number of fresh downloads and
      the scraper afterwards\<close>
  "download_batch e items save_metadata s =
     (let r = run_tasks e (download_tasks save_metadata items) s
      in (length (filter (\<lambda>outcome. fst outcome \<and> snd outcome = ''downloaded'') (fst r)), snd r))"

definition calls :: "scraper \<Rightarrow> nat" where
  \<comment> \<open>the \<^verbatim>\<open>Total processed\<close> figure of the batch report\<close>
  "calls s = downloaded_count s + skipped_count s + failed_count s + filtered_type_count s"

definition one_counter_incremented :: "scraper \<Rightarrow> scraper \<Rightarrow> bool" where
  \<comment> \<open>from \<open>s\<close> to \<open>s'\<close> exactly one of the four outcome counters went up, by one\<close>
  "one_counter_incremented s s' =
     ((downloaded_count s', skipped_count s', failed_count s', filtered_type_count s') \<in>
        {(downloaded_count s + 1, skipped_count s, failed_count s, filtered_type_count s),
         (downloaded_count s, skipped_count s + 1, failed_count s, filtered_type_count s),
         (downloaded_count s, skipped_count s, failed_count s + 1, filtered_type_count s),
         (downloaded_count s, skipped_count s, failed_count s, filtered_type_count s + 1)})"

definition short_circuits :: "bool \<times> string \<Rightarrow> bool" where
  \<comment> \<open>the test \<^verbatim>\<open>success or status.startswith("skipped")\<close> of the retry loop\<close>
  "short_circuits outcome = (fst outcome \<or> startswith (snd outcome) ''skipped'')"

section \<open>Sample surroundings\<close>

definition sample_scraper :: scraper where
  \<comment> \<open>a fresh scraper with the constructor's defaults: database mode, an empty ledger,
      an empty output directory\<close>
  "sample_scraper =
     \<lparr>output_dir = ''downloads'', allowed_types = None, dry_run = False, organize_by_nsfw = True,
      enable_retry = True, max_retries = 3, history = Database Map.empty,
      downloaded_count = 0, skipped_count = 0, failed_count = 0, filtered_type_count = 0,
      total_downloaded = 0, total_bytes = 0, files = Map.empty, requests = [], sleeps = []\<rparr>"

definition jpeg_payload :: bytes where
  "jpeg_payload = [CHR 0xFF, CHR 0xD8, CHR 0xFF, CHR 0xE0, CHR 0x00, CHR 0x10]"

definition steady_env :: env where
  \<comment> \<open>every request is answered with a JPEG in one chunk\<close>
  "steady_env = \<lparr>remote = (\<lambda>n url. Body [jpeg_payload]), json_dump = (\<lambda>m. ''{}'')\<rparr>"

definition flaky_env :: env where
  \<comment> \<open>the first two requests time out, later ones are answered with a PNG in two chunks\<close>
  "flaky_env =
     \<lparr>remote = (\<lambda>n url. if n < 2 then Failed ''timed out'' else Body [png_signature, ''IHDR'']),
      json_dump = (\<lambda>m. ''{}'')\<rparr>"

definition recorded_ledger :: ledger where
  \<comment> \<open>two items on record, one downloaded and one migrated from the text log\<close>
  "recorded_ledger =
     [''1'' \<mapsto> \<lparr>row_url = PStr ''https://image.example/1'', row_filename = ''downloads/SFW/civitai_1.jpg'',
               row_file_size = 6, row_width = Some 512, row_height = Some 512, row_nsfw_level = Some 1,
               row_status = ''success'', row_error_message = None, row_folder_path = Some ''SFW''\<rparr>,
      ''2'' \<mapsto> \<lparr>row_url = PStr [], row_filename = [],
               row_file_size = 0, row_width = None, row_height = None, row_nsfw_level = None,
               row_status = ''migrated'', row_error_message = None, row_folder_path = None\<rparr>]"

definition page_items :: "pydict list" where
  "page_items =
     [[(''id'', PInt 1), (''url'', PStr ''https://image.example/1''), (''width'', PInt 512),
       (''height'', PInt 512), (''nsfwLevel'', PInt 1)],
      [(''id'', PInt 2), (''url'', PStr ''https://image.example/2'')]]"



section \<open>Properties of the byte-string operations\<close>

lemma startswith_iff_prefix: "startswith data p = prefix p data"
proof
  assume "startswith data p"
  then have "data = p @ drop (length p) data"
    by (metis append_take_drop_id startswith_def)
  then show "prefix p data"
    by (metis prefixI)
next
  assume "prefix p data"
  then obtain rest where "data = p @ rest"
    by (auto simp: prefix_def)
  then show "startswith data p"
    by (simp add: startswith_def)
qed

lemma take_eq_iff_prefix: "length p = n \<Longrightarrow> (take n data = p) = prefix p data"
  using startswith_iff_prefix [of data p] by (simp add: startswith_def)

lemma contains_iff_sublist: "contains needle hay = sublist needle hay"
proof (induction hay)
  case Nil
  show ?case by (cases needle) simp_all
next
  case (Cons x xs)
  show ?case
  proof (cases needle)
    case Nil
    then show ?thesis by (simp add: startswith_def)
  next
    case (Cons n ns)
    with Cons.IH show ?thesis
      by (simp add: startswith_iff_prefix sublist_Cons_right)
  qed
qed

lemma slice_eq_iff_at_offset:
  assumes "length sig = j - i" and "sig \<noteq> []"
  shows "(slice i j data = sig) = at_offset i sig data"
proof
  assume "slice i j data = sig"
  then have t: "take (j - i) (drop i data) = sig"
    by (simp add: slice_def)
  with assms have "drop i data \<noteq> []" by auto
  then have "length (take i data) = i" by simp
  moreover have "data = take i data @ sig @ drop (j - i) (drop i data)"
    using t by (metis append_take_drop_id)
  ultimately show "at_offset i sig data"
    unfolding at_offset_def by blast
next
  assume "at_offset i sig data"
  then obtain pre rest where "length pre = i" "data = pre @ sig @ rest"
    unfolding at_offset_def by blast
  then show "slice i j data = sig"
    using assms by (simp add: slice_def)
qed

section \<open>The content sniffer follows its rule list\<close>

lemma png_signature_hex:
  "png_signature = [CHR 0x89, CHR 0x50, CHR 0x4E, CHR 0x47, CHR 0x0D, CHR 0x0A, CHR 0x1A, CHR 0x0A]"
  by (simp add: png_signature_def)

lemmas sniff_eval = detect_image_format_def slice_def startswith_def png_signature_def

lemma detect_mp4_before_riff: "detect_image_format ''RIFFftypmp42'' = (''.mp4'', True)"
  by (simp add: sniff_eval)

lemma detect_webp: "detect_image_format ''RIFF____WEBPVP8 '' = (''.webp'', False)"
  by (simp add: sniff_eval)

lemma detect_gif: "detect_image_format ''GIF89a__'' = (''.gif'', False)"
  by (simp add: sniff_eval)

text \<open>
  Claim C2. For every byte string the sniffer returns what the documented rule list
  returns, the rules tried in the documented order and the first match winning: an
  MP4/ISO signature in bytes 4 to 12, then the prefixes 1A 45 DF A3 (.webm, video),
  FLV (.flv, video), 89 50 4E 47 0D 0A 1A 0A (.png), FF D8 FF (.jpg), RIFF with WEBP
  inside the first 12 bytes (.webp), GIF87a or GIF89a (.gif), and otherwise the fallback
  (.jpg, not a video), which is a value and not an error. In particular the eight PNG
  signature bytes alone give (.png, not a video) and an empty or unknown payload gives
  the fallback.
\<close>

theorem detect_image_format_refines_spec:
  "detect_image_format data = classify_spec data
   \<and> detect_image_format [CHR 0x89, CHR 0x50, CHR 0x4E, CHR 0x47, CHR 0x0D, CHR 0x0A, CHR 0x1A, CHR 0x0A]
       = (''.png'', False)
   \<and> detect_image_format [] = (''.jpg'', False)
   \<and> detect_image_format ''unknown payload'' = (''.jpg'', False)"
proof -
  have mp4: "(slice 4 12 data = ''ftypmp42'') = at_offset 4 ''ftypmp42'' data"
    "(slice 4 12 data = ''ftypisom'') = at_offset 4 ''ftypisom'' data"
    by (rule slice_eq_iff_at_offset; simp)+
  have webm: "(take 4 data = [CHR 0x1A, CHR 0x45, CHR 0xDF, CHR 0xA3])
      = prefix [CHR 0x1A, CHR 0x45, CHR 0xDF, CHR 0xA3] data"
    by (rule take_eq_iff_prefix) simp
  have flv: "(take 3 data = ''FLV'') = prefix ''FLV'' data"
    by (rule take_eq_iff_prefix) simp
  have "detect_image_format data = classify_spec data"
    unfolding detect_image_format_def classify_spec_def mp4 webm flv
      startswith_iff_prefix contains_iff_sublist png_signature_hex
    by (rule refl)
  moreover have "detect_image_format
      [CHR 0x89, CHR 0x50, CHR 0x4E, CHR 0x47, CHR 0x0D, CHR 0x0A, CHR 0x1A, CHR 0x0A] = (''.png'', False)"
    by (simp add: sniff_eval)
  moreover have "detect_image_format [] = (''.jpg'', False)"
    by (simp add: sniff_eval)
  moreover have "detect_image_format ''unknown payload'' = (''.jpg'', False)"
    by (simp add: sniff_eval)
  ultimately show ?thesis by blast
qed

section \<open>Content-rating normalization: the cases\<close>

lemmas convert_eval = convert_nsfw_to_level_def int_of_str_def strip_def is_space_def is_digit_def
  digit_val_def upper_def upper_char_def nsfw_mapping_def

lemma strip_keeps_head:
  assumes "\<not> is_space c"
  shows "\<exists>r. strip (c # cs) = c # r"
proof -
  have "\<exists>ys. dropWhile is_space (rev cs @ [c]) = ys @ [c]"
  proof (cases "\<forall>x \<in> set (rev cs). is_space x")
    case True
    then have "dropWhile is_space (rev cs @ [c]) = dropWhile is_space [c]"
      by (intro dropWhile_append2) simp
    with assms show ?thesis by simp
  next
    case False
    then obtain x where "x \<in> set (rev cs)" "\<not> is_space x" by blast
    then have "dropWhile is_space (rev cs @ [c]) = dropWhile is_space (rev cs) @ [c]"
      by (rule dropWhile_append1)
    then show ?thesis by blast
  qed
  then obtain ys where "dropWhile is_space (rev cs @ [c]) = ys @ [c]" ..
  with assms have "strip (c # cs) = c # rev ys"
    by (simp add: strip_def)
  then show ?thesis ..
qed

lemma int_of_str_not_numeric:
  assumes "\<not> is_space c" "\<not> is_digit c" "c \<noteq> CHR ''-''" "c \<noteq> CHR ''+''"
  shows "int_of_str (c # cs) = None"
proof -
  from strip_keeps_head [OF assms(1)] obtain r where "strip (c # cs) = c # r" ..
  with assms show ?thesis
    by (simp add: int_of_str_def)
qed

lemma upper_char_label_start:
  assumes "upper_char c \<in> {CHR ''N'', CHR ''S'', CHR ''M'', CHR ''X''}"
  shows "\<not> is_space c \<and> \<not> is_digit c \<and> c \<noteq> CHR ''-'' \<and> c \<noteq> CHR ''+''"
proof -
  from assms have "c \<in> set ''nNsSmMxX''"
    unfolding upper_char_def by (simp split: option.splits if_splits; blast)
  then consider "c = CHR ''n''" | "c = CHR ''N''" | "c = CHR ''s''" | "c = CHR ''S''"
    | "c = CHR ''m''" | "c = CHR ''M''" | "c = CHR ''x''" | "c = CHR ''X''"
    by auto
  then show ?thesis
    by cases (simp_all add: is_space_def is_digit_def)
qed

lemma label_not_numeric:
  assumes "(l, n) \<in> set nsfw_mapping" and "upper s = l"
  shows "int_of_str s = None"
proof -
  from assms(1) have "\<exists>u us. l = u # us \<and> u \<in> {CHR ''N'', CHR ''S'', CHR ''M'', CHR ''X''}"
    by (auto simp: nsfw_mapping_def)
  then obtain u us where l: "l = u # us" and u: "u \<in> {CHR ''N'', CHR ''S'', CHR ''M'', CHR ''X''}"
    by blast
  with assms(2) obtain c cs where s: "s = c # cs" and "upper_char c = u"
    by (auto simp: upper_def)
  with u have "upper_char c \<in> {CHR ''N'', CHR ''S'', CHR ''M'', CHR ''X''}" by simp
  from upper_char_label_start [OF this] show ?thesis
    unfolding s by (intro int_of_str_not_numeric) simp_all
qed

lemma nsfw_mapping_lookup:
  assumes "(l, n) \<in> set nsfw_mapping"
  shows "map_of nsfw_mapping l = Some n" and "l \<in> fst ` set nsfw_mapping"
  using assms by (auto simp: nsfw_mapping_def)

lemma convert_label:
  assumes "(l, n) \<in> set nsfw_mapping" and "upper s = l"
  shows "convert_nsfw_to_level (PStr s) = (n, [])"
  using label_not_numeric [OF assms] nsfw_mapping_lookup [OF assms(1)] assms(2)
  by (simp add: convert_nsfw_to_level_def)

lemma convert_parseable:
  assumes "py_int v = Some n"
  shows "convert_nsfw_to_level v = (n, [])"
proof -
  from assms have "v \<noteq> PNone" by auto
  with assms show ?thesis by (simp add: convert_nsfw_to_level_def)
qed

lemma convert_unrecognized:
  assumes "v \<noteq> PNone" "py_int v = None" "upper (py_str v) \<notin> fst ` set nsfw_mapping"
  shows "convert_nsfw_to_level v = (0, [Unknown_nsfw_warning v])"
proof -
  from assms(3) have "map_of nsfw_mapping (upper (py_str v)) = None"
    by (simp add: map_of_eq_None_iff)
  with assms show ?thesis by (simp add: convert_nsfw_to_level_def)
qed

lemma map_of_nsfw_mapping_range:
  "map_of nsfw_mapping k = Some l \<Longrightarrow> l \<in> {0, 1, 2, 4, 5, 6}"
  by (auto simp: nsfw_mapping_def split: if_splits)

lemma convert_range:
  "fst (convert_nsfw_to_level v) \<in> {0, 1, 2, 4, 5, 6} \<or> py_int v = Some (fst (convert_nsfw_to_level v))"
proof (cases "v = PNone")
  case True
  then show ?thesis by (simp add: convert_nsfw_to_level_def)
next
  case False
  show ?thesis
  proof (cases "py_int v")
    case (Some n)
    then show ?thesis by (simp add: convert_parseable)
  next
    case None
    show ?thesis
    proof (cases "map_of nsfw_mapping (upper (py_str v))")
      case N: None
      with None False show ?thesis by (simp add: convert_nsfw_to_level_def Let_def)
    next
      case (Some l)
      from map_of_nsfw_mapping_range [OF this] Some None False show ?thesis
        by (auto simp: convert_nsfw_to_level_def Let_def)
    qed
  qed
qed

text \<open>
  Claim C4, as amended. The normalization returns 0 for \<^verbatim>\<open>None\<close>; for a value that
  \<^verbatim>\<open>int()\<close> accepts it returns that integer as it is, with no clamping; for a string
  whose upper-case form is NONE, SOFT, MATURE, MATURE+, X or XXX it returns 0, 1, 2, 4, 5
  or 6; for any other string it returns 0 and logs one warning. So the result lies in
  0 to 6 whenever the input is not parseable as an integer, and otherwise it is the
  parsed integer itself.
\<close>

theorem convert_nsfw_to_level_cases:
  "convert_nsfw_to_level PNone = (0, [])
   \<and> (py_int v = Some n \<longrightarrow> convert_nsfw_to_level v = (n, []))
   \<and> ((l, k) \<in> set [(''NONE'', 0), (''SOFT'', 1), (''MATURE'', 2), (''MATURE+'', 4), (''X'', 5), (''XXX'', 6)]
        \<and> upper s = l \<longrightarrow> convert_nsfw_to_level (PStr s) = (k, []))
   \<and> (v \<noteq> PNone \<and> py_int v = None
        \<and> upper (py_str v) \<notin> {''NONE'', ''SOFT'', ''MATURE'', ''MATURE+'', ''X'', ''XXX''}
        \<longrightarrow> convert_nsfw_to_level v = (0, [Unknown_nsfw_warning v]))
   \<and> (fst (convert_nsfw_to_level v) \<in> {0, 1, 2, 4, 5, 6}
        \<or> py_int v = Some (fst (convert_nsfw_to_level v)))"
proof -
  have a: "convert_nsfw_to_level PNone = (0, [])"
    by (simp add: convert_nsfw_to_level_def)
  have tab: "set [(''NONE'', 0), (''SOFT'', 1), (''MATURE'', 2), (''MATURE+'', 4), (''X'', 5), (''XXX'', 6)]
      = set nsfw_mapping"
    by (simp add: nsfw_mapping_def)
  have keys: "{''NONE'', ''SOFT'', ''MATURE'', ''MATURE+'', ''X'', ''XXX''} = fst ` set nsfw_mapping"
    by (simp add: nsfw_mapping_def)
  show ?thesis
    unfolding tab keys
    using a convert_parseable convert_label convert_unrecognized convert_range by blast
qed

text \<open>
  Claim C4 as stated fails: the integer 7 and the string "42" are parseable as integers
  and come back unchanged, outside the range 0 to 6.
\<close>

theorem convert_nsfw_to_level_out_of_range:
  "\<not> (0 \<le> fst (convert_nsfw_to_level (PInt 7)) \<and> fst (convert_nsfw_to_level (PInt 7)) \<le> 6)
   \<and> fst (convert_nsfw_to_level (PStr ''42'')) = 42"
  by (simp add: convert_nsfw_to_level_def int_of_str_def strip_def is_space_def is_digit_def digit_val_def)



text \<open>The cases of C4 at the inputs "3", "Mature+" and "Foo".\<close>

theorem convert_nsfw_to_level_cases_witness:
  "py_int (PStr ''3'') = Some 3 \<and> convert_nsfw_to_level (PStr ''3'') = (3, [])
   \<and> upper ''Mature+'' = ''MATURE+'' \<and> convert_nsfw_to_level (PStr ''Mature+'') = (4, [])
   \<and> PStr ''Foo'' \<noteq> PNone \<and> py_int (PStr ''Foo'') = None
   \<and> upper (py_str (PStr ''Foo'')) \<notin> {''NONE'', ''SOFT'', ''MATURE'', ''MATURE+'', ''X'', ''XXX''}
   \<and> convert_nsfw_to_level (PStr ''Foo'') = (0, [Unknown_nsfw_warning (PStr ''Foo'')])"
proof -
  have h1: "py_int (PStr ''3'') = Some 3"
    by (simp add: convert_eval)
  have h2: "upper ''Mature+'' = ''MATURE+''"
    by (simp add: convert_eval)
  have h3: "PStr ''Foo'' \<noteq> PNone \<and> py_int (PStr ''Foo'') = None
     \<and> upper (py_str (PStr ''Foo'')) \<notin> {''NONE'', ''SOFT'', ''MATURE'', ''MATURE+'', ''X'', ''XXX''}"
    by (simp add: convert_eval)
  have m: "(''MATURE+'', 4) \<in> set [(''NONE'', 0::int), (''SOFT'', 1), (''MATURE'', 2), (''MATURE+'', 4), (''X'', 5), (''XXX'', 6)]"
    by simp
  note c = convert_nsfw_to_level_cases [of "PStr ''3''" 3 "''MATURE+''" 4 "''Mature+''"]
  note d = convert_nsfw_to_level_cases [of "PStr ''Foo''" 0 "''XXX''" 6 "''XXX''"]
  have a1: "convert_nsfw_to_level (PStr ''3'') = (3, [])"
    using c h1 by blast
  have a2: "convert_nsfw_to_level (PStr ''Mature+'') = (4, [])"
    using c m h2 by blast
  have a3: "convert_nsfw_to_level (PStr ''Foo'') = (0, [Unknown_nsfw_warning (PStr ''Foo'')])"
    using d h3 by blast
  show ?thesis
    using h1 h2 h3 a1 a2 a3 by blast
qed

section \<open>The pre-download filters\<close>

lemma py_in_levels: "py_in v [PInt 5, PInt 6] = (v = PInt 5 \<or> v = PInt 6)"
  by (cases v) (auto simp: py_in_def)

lemma py_in_labels: "py_in v [PStr ''X'', PStr ''XXX''] = (v = PStr ''X'' \<or> v = PStr ''XXX'')"
  by (cases v) (auto simp: py_in_def)

text \<open>
  Claim C7, as amended. With the rating-only filter on, the filtering step keeps exactly
  the items whose raw \<^verbatim>\<open>nsfwLevel\<close> field is the number 5 or 6 or whose raw
  \<^verbatim>\<open>nsfw\<close> field is exactly the string X or XXX, in page order, and drops the
  others; with the filter off the page is unchanged. The fields are compared as they
  arrive, not after normalization.
\<close>

theorem nsfw_only_filter_raw_fields:
  "nsfw_only_filter True items =
     filter (\<lambda>item. dict_get item ''nsfwLevel'' = PInt 5 \<or> dict_get item ''nsfwLevel'' = PInt 6
                   \<or> dict_get item ''nsfw'' = PStr ''X'' \<or> dict_get item ''nsfw'' = PStr ''XXX'') items
   \<and> nsfw_only_filter False items = items"
  by (simp add: nsfw_only_filter_def py_in_levels py_in_labels disj_ac)


text \<open>
  Claim C7 as stated fails in both directions: an item whose level arrives as the string
  "5" has normalized level 5 and is dropped, and an item with level 1 and label X has
  normalized level 1 and is kept.
\<close>

theorem nsfw_only_filter_not_normalized:
  "item_nsfw_level [(''nsfwLevel'', PStr ''5'')] = Some 5
   \<and> nsfw_only_filter True [[(''nsfwLevel'', PStr ''5'')]] = []
   \<and> item_nsfw_level [(''nsfwLevel'', PInt 1), (''nsfw'', PStr ''X'')] = Some 1
   \<and> nsfw_only_filter True [[(''nsfwLevel'', PInt 1), (''nsfw'', PStr ''X'')]]
       = [[(''nsfwLevel'', PInt 1), (''nsfw'', PStr ''X'')]]"
  by (simp add: item_nsfw_level_def nsfw_only_filter_def py_in_def py_or_def dict_get_def convert_eval)

lemma resolution_ok_iff:
  "resolution_ok t item =
     (\<exists>w h. side_or_zero (dict_get item ''width'') = Some w
          \<and> side_or_zero (dict_get item ''height'') = Some h \<and> t \<le> max w h)"
  by (auto simp: resolution_ok_def split: option.splits)

lemma resolution_ok_unparseable:
  assumes "(truthy (dict_get item ''width'') \<and> py_int (dict_get item ''width'') = None)
         \<or> (truthy (dict_get item ''height'') \<and> py_int (dict_get item ''height'') = None)"
  shows "\<not> resolution_ok t item"
  using assms by (auto simp: resolution_ok_def side_or_zero_def split: option.splits)

lemma side_or_zero_iff:
  "side_or_zero v = Some w \<longleftrightarrow> (if truthy v then py_int v = Some w else w = 0)"
  by (auto simp: side_or_zero_def)

lemma truthy_iff:
  "truthy v \<longleftrightarrow> v \<noteq> PNone \<and> v \<noteq> PBool False \<and> v \<noteq> PInt 0 \<and> v \<noteq> PStr []"
  by (cases v) auto

text \<open>
  Claim C8, as amended. With a minimum-resolution threshold configured (a non-zero
  integer), the filtering step keeps, in page order, exactly the items whose longer side,
  the maximum of width and height, is at least the threshold, where a side that is
  missing, null, false, zero or the empty string counts as 0 without being converted, and
  any other side is converted by \<^verbatim>\<open>int()\<close>. An item with such a side that
  \<^verbatim>\<open>int()\<close> rejects is dropped. An item whose width counts as 0 is kept when its
  height reaches the threshold. An item of 4000 by 1000 passes the threshold 2048.
\<close>

theorem min_resolution_filter_keeps_longer_side:
  assumes "t \<noteq> 0"
  shows "min_resolution_filter (Some t) items =
           filter (\<lambda>item. \<exists>w h.
                      (if truthy (dict_get item ''width'')
                       then py_int (dict_get item ''width'') = Some w else w = 0)
                    \<and> (if truthy (dict_get item ''height'')
                       then py_int (dict_get item ''height'') = Some h else h = 0)
                    \<and> t \<le> max w h) items
    \<and> (truthy v \<longleftrightarrow> v \<noteq> PNone \<and> v \<noteq> PBool False \<and> v \<noteq> PInt 0 \<and> v \<noteq> PStr [])
    \<and> ((truthy (dict_get item ''width'') \<and> py_int (dict_get item ''width'') = None)
         \<or> (truthy (dict_get item ''height'') \<and> py_int (dict_get item ''height'') = None)
         \<longrightarrow> item \<notin> set (min_resolution_filter (Some t) items))
    \<and> (item \<in> set items \<and> \<not> truthy (dict_get item ''width'')
          \<and> truthy (dict_get item ''height'') \<and> py_int (dict_get item ''height'') = Some h \<and> t \<le> h
         \<longrightarrow> item \<in> set (min_resolution_filter (Some t) items))
    \<and> min_resolution_filter (Some 2048) [[(''width'', PInt 4000), (''height'', PInt 1000)]]
           = [[(''width'', PInt 4000), (''height'', PInt 1000)]]"
proof (intro conjI impI)
  have "resolution_ok t = (\<lambda>item. \<exists>w h.
                      (if truthy (dict_get item ''width'')
                       then py_int (dict_get item ''width'') = Some w else w = 0)
                    \<and> (if truthy (dict_get item ''height'')
                       then py_int (dict_get item ''height'') = Some h else h = 0)
                    \<and> t \<le> max w h)"
    by (rule ext) (simp only: resolution_ok_iff side_or_zero_iff)
  then show "min_resolution_filter (Some t) items =
           filter (\<lambda>item. \<exists>w h.
                      (if truthy (dict_get item ''width'')
                       then py_int (dict_get item ''width'') = Some w else w = 0)
                    \<and> (if truthy (dict_get item ''height'')
                       then py_int (dict_get item ''height'') = Some h else h = 0)
                    \<and> t \<le> max w h) items"
    using assms by (simp only: min_resolution_filter_def option.case if_True simp_thms)
next
  show "truthy v \<longleftrightarrow> v \<noteq> PNone \<and> v \<noteq> PBool False \<and> v \<noteq> PInt 0 \<and> v \<noteq> PStr []"
    by (rule truthy_iff)
next
  assume "(truthy (dict_get item ''width'') \<and> py_int (dict_get item ''width'') = None)
         \<or> (truthy (dict_get item ''height'') \<and> py_int (dict_get item ''height'') = None)"
  from resolution_ok_unparseable [OF this, of t] assms
  show "item \<notin> set (min_resolution_filter (Some t) items)"
    by (simp add: min_resolution_filter_def)
next
  assume h: "item \<in> set items \<and> \<not> truthy (dict_get item ''width'')
          \<and> truthy (dict_get item ''height'') \<and> py_int (dict_get item ''height'') = Some h \<and> t \<le> h"
  then have "resolution_ok t item"
    by (auto simp: resolution_ok_def side_or_zero_def)
  with h assms show "item \<in> set (min_resolution_filter (Some t) items)"
    by (simp add: min_resolution_filter_def)
next
  show "min_resolution_filter (Some 2048) [[(''width'', PInt 4000), (''height'', PInt 1000)]]
           = [[(''width'', PInt 4000), (''height'', PInt 1000)]]"
    by (simp add: min_resolution_filter_def resolution_ok_def side_or_zero_def dict_get_def)
qed

text \<open>
  C8 on a page of four items with the threshold 2048: the third has a width that
  \<^verbatim>\<open>int()\<close> rejects, the fourth an empty width.
\<close>

theorem min_resolution_filter_witness:
  "(2048::int) \<noteq> 0
   \<and> truthy (dict_get [(''width'', PStr ''wide''), (''height'', PInt 5000)] ''width'')
   \<and> py_int (dict_get [(''width'', PStr ''wide''), (''height'', PInt 5000)] ''width'') = None
   \<and> [(''width'', PStr []), (''height'', PInt 4000)]
        \<in> set [[(''width'', PInt 4000), (''height'', PInt 1000)],
                [(''width'', PInt 1024), (''height'', PStr ''1024'')],
                [(''width'', PStr ''wide''), (''height'', PInt 5000)],
                [(''width'', PStr []), (''height'', PInt 4000)]]
   \<and> \<not> truthy (dict_get [(''width'', PStr []), (''height'', PInt 4000)] ''width'')
   \<and> truthy (dict_get [(''width'', PStr []), (''height'', PInt 4000)] ''height'')
   \<and> py_int (dict_get [(''width'', PStr []), (''height'', PInt 4000)] ''height'') = Some 4000
   \<and> (2048::int) \<le> 4000
   \<and> min_resolution_filter (Some 2048)
        [[(''width'', PInt 4000), (''height'', PInt 1000)],
         [(''width'', PInt 1024), (''height'', PStr ''1024'')],
         [(''width'', PStr ''wide''), (''height'', PInt 5000)],
         [(''width'', PStr []), (''height'', PInt 4000)]]
       = [[(''width'', PInt 4000), (''height'', PInt 1000)],
          [(''width'', PStr []), (''height'', PInt 4000)]]"
proof -
  let ?page = "[[(''width'', PInt 4000), (''height'', PInt 1000)],
         [(''width'', PInt 1024), (''height'', PStr ''1024'')],
         [(''width'', PStr ''wide''), (''height'', PInt 5000)],
         [(''width'', PStr []), (''height'', PInt 4000)]]"
  have t: "(2048::int) \<noteq> 0" by simp
  have p: "truthy (dict_get [(''width'', PStr ''wide''), (''height'', PInt 5000)] ''width'')
     \<and> py_int (dict_get [(''width'', PStr ''wide''), (''height'', PInt 5000)] ''width'') = None"
    by (simp add: dict_get_def convert_eval)
  have q: "[(''width'', PStr []), (''height'', PInt 4000)] \<in> set ?page
     \<and> \<not> truthy (dict_get [(''width'', PStr []), (''height'', PInt 4000)] ''width'')
     \<and> truthy (dict_get [(''width'', PStr []), (''height'', PInt 4000)] ''height'')
     \<and> py_int (dict_get [(''width'', PStr []), (''height'', PInt 4000)] ''height'') = Some 4000
     \<and> (2048::int) \<le> 4000"
    by (simp add: dict_get_def)
  have ints: "int_of_str ''1024'' = Some 1024" "int_of_str ''wide'' = None"
    by (simp_all add: convert_eval)
  note c = min_resolution_filter_keeps_longer_side [OF t, where items = ?page
      and item = "[(''width'', PStr []), (''height'', PInt 4000)]" and h = 4000]
  have r: "min_resolution_filter (Some 2048) ?page
       = [[(''width'', PInt 4000), (''height'', PInt 1000)],
          [(''width'', PStr []), (''height'', PInt 4000)]]"
    using c ints by (simp add: dict_get_def)
  show ?thesis
    using t p q r by blast
qed

text \<open>
  Claim C8 as stated fails for a declared side that does not parse and is empty: the
  empty string is rejected by \<^verbatim>\<open>int()\<close>, yet the guard before the conversion makes
  it count as 0, and the item is kept on the strength of its height. The same holds for a
  width that is null.
\<close>

theorem min_resolution_filter_keeps_empty_width:
  "py_int (dict_get [(''width'', PStr []), (''height'', PInt 4000)] ''width'') = None
   \<and> min_resolution_filter (Some 2048) [[(''width'', PStr []), (''height'', PInt 4000)]]
       = [[(''width'', PStr []), (''height'', PInt 4000)]]
   \<and> py_int (dict_get [(''width'', PNone), (''height'', PInt 4000)] ''width'') = None
   \<and> min_resolution_filter (Some 2048) [[(''width'', PNone), (''height'', PInt 4000)]]
       = [[(''width'', PNone), (''height'', PInt 4000)]]"
  by (simp add: min_resolution_filter_def resolution_ok_def side_or_zero_def dict_get_def convert_eval)

section \<open>One attempt: counters and frame\<close>

lemma exception_exit_counter:
  "one_counter_incremented s (snd (exception_exit temp err s))"
  by (simp add: exception_exit_def one_counter_incremented_def)

lemma exception_exit_frame:
  "sleeps (snd (exception_exit temp err s)) = sleeps s"
  "requests (snd (exception_exit temp err s)) = requests s"
  "history (snd (exception_exit temp err s)) = history s"
  by (simp_all add: exception_exit_def)

lemma exists_branch_counter:
  "one_counter_incremented s (snd (exists_branch url metadata image_id temp filepath folder_path s))"
  by (simp add: exists_branch_def exception_exit_def one_counter_incremented_def Let_def
      split: history.split option.split sum.split prod.split)

lemma exists_branch_sleeps:
  "sleeps (snd (exists_branch url metadata image_id temp filepath folder_path s)) = sleeps s"
  by (simp add: exists_branch_def exception_exit_def Let_def split: history.split option.split sum.split prod.split)

lemma place_branch_counter:
  "one_counter_incremented s
     (snd (place_branch e url metadata image_id temp filepath meta_path folder_path payload s))"
  by (simp add: place_branch_def exception_exit_def one_counter_incremented_def Let_def
      split: history.split option.split sum.split prod.split)

lemma place_branch_sleeps:
  "sleeps (snd (place_branch e url metadata image_id temp filepath meta_path folder_path payload s))
     = sleeps s"
  by (simp add: place_branch_def exception_exit_def Let_def split: history.split option.split sum.split prod.split)

lemma one_counter_incremented_files:
  "one_counter_incremented (s\<lparr>files := fs\<rparr>) s' = one_counter_incremented s s'"
  "one_counter_incremented (s\<lparr>requests := rq\<rparr>) s' = one_counter_incremented s s'"
  by (simp_all add: one_counter_incremented_def)

lemma after_fetch_counter:
  "one_counter_incremented s (snd (after_fetch e url filename metadata image_id temp chunks s))"
proof -
  let ?s1 = "s\<lparr>files := (files s)(temp \<mapsto> concat chunks)\<rparr>"
  have a: "one_counter_incremented s (snd (exists_branch url metadata image_id temp fp fo ?s1))" for fp fo
    using exists_branch_counter [of ?s1] by (simp add: one_counter_incremented_files)
  have b: "one_counter_incremented s
      (snd (place_branch e url metadata image_id temp fp mp fo pl ?s1))" for fp mp fo pl
    using place_branch_counter [of ?s1] by (simp add: one_counter_incremented_files)
  have c: "one_counter_incremented s
      (?s1\<lparr>files := (files ?s1)(temp := None), filtered_type_count := filtered_type_count ?s1 + 1\<rparr>)"
    "one_counter_incremented s
      (?s1\<lparr>files := (files ?s1)(temp := None), failed_count := failed_count ?s1 + 1\<rparr>)"
    by (simp_all add: one_counter_incremented_def)
  show ?thesis
    unfolding after_fetch_def Let_def
    using a b c by (simp split: option.split)
qed

lemma after_fetch_sleeps:
  "sleeps (snd (after_fetch e url filename metadata image_id temp chunks s)) = sleeps s"
  unfolding after_fetch_def Let_def
  by (simp add: exists_branch_sleeps place_branch_sleeps split: option.split)

lemma download_image_counter:
  "one_counter_incremented s (snd (download_image e url filename metadata image_id s))"
proof -
  let ?s1 = "s\<lparr>requests := requests s @ [url]\<rparr>"
  have a: "one_counter_incremented s (snd (exception_exit t err ?s1))" for t err
    using exception_exit_counter [of ?s1] by (simp add: one_counter_incremented_files)
  have b: "one_counter_incremented s (snd (after_fetch e url filename metadata image_id t ch ?s1))" for t ch
    using after_fetch_counter [of ?s1] by (simp add: one_counter_incremented_files)
  have c: "one_counter_incremented s (s\<lparr>skipped_count := skipped_count s + 1\<rparr>)"
    "one_counter_incremented s (s\<lparr>downloaded_count := downloaded_count s + 1\<rparr>)"
    by (simp_all add: one_counter_incremented_def)
  show ?thesis
    unfolding download_image_def Let_def
    using a b c by (simp split: option.split response.split)
qed

lemma download_image_sleeps:
  "sleeps (snd (download_image e url filename metadata image_id s)) = sleeps s"
  unfolding download_image_def Let_def
  by (simp add: exception_exit_frame after_fetch_sleeps split: option.split response.split)

lemma calls_step:
  "one_counter_incremented s s' \<Longrightarrow> calls s' = calls s + 1"
  by (auto simp: one_counter_incremented_def calls_def)

lemma download_image_calls:
  "calls (snd (download_image e url filename metadata image_id s)) = calls s + 1"
  by (rule calls_step) (rule download_image_counter)

section \<open>The retry loop\<close>

lemma retry_loop_exhausted:
  "n < attempt \<Longrightarrow>
   retry_loop e url fn meta iid n bf attempt le s =
     ((False, ''failed after '' @ str_int n @ '' retries: ''
        @ (case le of None \<Rightarrow> ''None'' | Some err \<Rightarrow> err)), s)"
  by (simp add: retry_loop.simps)

lemma retry_loop_short_circuit:
  assumes "attempt \<le> n" and "short_circuits (fst (download_image e url fn meta iid s))"
  shows "retry_loop e url fn meta iid n bf attempt le s = download_image e url fn meta iid s"
  using assms
  by (subst retry_loop.simps) (simp add: short_circuits_def Let_def)

lemma retry_loop_retry:
  assumes "attempt \<le> n" and "\<not> short_circuits (fst (download_image e url fn meta iid s))"
  shows "retry_loop e url fn meta iid n bf attempt le s =
     retry_loop e url fn meta iid n bf (attempt + 1)
       (Some (snd (fst (download_image e url fn meta iid s))))
       (if attempt < n
        then (snd (download_image e url fn meta iid s))
               \<lparr>sleeps := sleeps (snd (download_image e url fn meta iid s)) @ [bf ^ nat (attempt - 1)]\<rparr>
        else snd (download_image e url fn meta iid s))"
  using assms
  by (subst retry_loop.simps) (simp add: short_circuits_def Let_def)

lemma calls_sleeps_update: "calls (s\<lparr>sleeps := sl\<rparr>) = calls s"
  by (simp add: calls_def)

lemma retry_loop_law:
  assumes "1 \<le> attempt"
  shows "\<exists>k. calls (snd (retry_loop e url fn meta iid n bf attempt le s)) = calls s + k
           \<and> k \<le> nat (n + 1 - attempt)
           \<and> (attempt \<le> n \<longrightarrow> 1 \<le> k)
           \<and> sleeps (snd (retry_loop e url fn meta iid n bf attempt le s))
               = sleeps s @ map (\<lambda>j. bf ^ j) [nat (attempt - 1) ..< nat (attempt - 1) + (k - 1)]"
  using assms
proof (induction e url fn meta iid n bf attempt le s rule: retry_loop.induct)
  case (1 e url fn meta iid n bf attempt le s)
  let ?a = "download_image e url fn meta iid s"
  show ?case
  proof (cases "n < attempt")
    case True
    then show ?thesis
      by (simp add: retry_loop_exhausted)
  next
    case False
    then have le_n: "attempt \<le> n" by simp
    show ?thesis
    proof (cases "short_circuits (fst ?a)")
      case True
      have "calls (snd ?a) = calls s + 1 \<and> sleeps (snd ?a) = sleeps s"
        by (simp add: download_image_calls download_image_sleeps)
      with le_n "1.prems" show ?thesis
        unfolding retry_loop_short_circuit [OF le_n True]
        by (intro exI [of _ 1]) simp
    next
      case sc: False
      let ?s2 = "if attempt < n
        then (snd ?a)\<lparr>sleeps := sleeps (snd ?a) @ [bf ^ nat (attempt - 1)]\<rparr>
        else snd ?a"
      let ?r = "retry_loop e url fn meta iid n bf (attempt + 1) (Some (snd (fst ?a))) ?s2"
      have nsc: "\<not> (fst (fst ?a) \<or> startswith (snd (fst ?a)) ''skipped'')"
        using sc by (simp add: short_circuits_def)
      have "1 \<le> attempt + 1" using "1.prems" by simp
      from "1.IH" [OF False refl refl refl refl nsc this]
      obtain k where k: "calls (snd ?r) = calls ?s2 + k"
        "k \<le> nat (n + 1 - (attempt + 1))"
        "attempt + 1 \<le> n \<longrightarrow> 1 \<le> k"
        "sleeps (snd ?r) = sleeps ?s2 @ map (\<lambda>j. bf ^ j)
           [nat (attempt + 1 - 1) ..< nat (attempt + 1 - 1) + (k - 1)]"
        by blast
      have c2: "calls ?s2 = calls s + 1"
        by (simp add: calls_sleeps_update download_image_calls)
      have nat_a: "nat (attempt + 1 - 1) = Suc (nat (attempt - 1))"
        using "1.prems" by simp
      have sl: "sleeps (snd ?r) = sleeps s @ map (\<lambda>j. bf ^ j)
           [nat (attempt - 1) ..< nat (attempt - 1) + k]"
      proof (cases "attempt < n")
        case True
        with k(3) have k1: "1 \<le> k" by simp
        define a where "a = nat (attempt - 1)"
        have upper: "Suc a + (k - 1) = a + k" using k1 by simp
        have "a < a + k" using k1 by simp
        then have split: "[a ..< a + k] = a # [Suc a ..< a + k]"
          by (rule upt_conv_Cons)
        have s2: "sleeps ?s2 = sleeps s @ [bf ^ a]"
          using True by (simp add: download_image_sleeps a_def)
        have "sleeps (snd ?r) = sleeps ?s2 @ map (\<lambda>j. bf ^ j) [Suc a ..< Suc a + (k - 1)]"
          using k(4) unfolding nat_a a_def .
        also have "\<dots> = sleeps s @ map (\<lambda>j. bf ^ j) [a ..< a + k]"
          unfolding s2 upper split by simp
        finally show ?thesis unfolding a_def .
      next
        case False
        with le_n have "attempt = n" by simp
        with k(2) have "k = 0" by simp
        with False k(4) show ?thesis
          by (simp add: download_image_sleeps)
      qed
      have "calls (snd ?r) = calls s + (k + 1)"
        using k(1) c2 by simp
      moreover have "k + 1 \<le> nat (n + 1 - attempt)"
        using k(2) le_n by simp
      moreover have "sleeps (snd ?r) = sleeps s @ map (\<lambda>j. bf ^ j)
           [nat (attempt - 1) ..< nat (attempt - 1) + (k + 1 - 1)]"
        using sl by simp
      ultimately show ?thesis
        unfolding retry_loop_retry [OF le_n sc]
        by (intro exI [of _ "k + 1"]) simp
    qed
  qed
qed

lemma retry_loop_outcome:
  assumes "attempt \<le> n" and "1 \<le> attempt"
  shows "\<exists>s_last.
      (short_circuits (fst (download_image e url fn meta iid s_last))
        \<and> retry_loop e url fn meta iid n bf attempt le s = download_image e url fn meta iid s_last)
    \<or> (\<not> short_circuits (fst (download_image e url fn meta iid s_last))
        \<and> calls (snd (retry_loop e url fn meta iid n bf attempt le s)) = calls s + nat (n + 1 - attempt)
        \<and> retry_loop e url fn meta iid n bf attempt le s =
            ((False, ''failed after '' @ str_int n @ '' retries: ''
                @ snd (fst (download_image e url fn meta iid s_last))),
             snd (download_image e url fn meta iid s_last)))"
  using assms
proof (induction e url fn meta iid n bf attempt le s rule: retry_loop.induct)
  case (1 e url fn meta iid n bf attempt le s)
  let ?a = "download_image e url fn meta iid s"
  from "1.prems" have le_n: "attempt \<le> n" by simp
  show ?case
  proof (cases "short_circuits (fst ?a)")
    case True
    with retry_loop_short_circuit [OF le_n True] show ?thesis by blast
  next
    case sc: False
    let ?s2 = "if attempt < n
        then (snd ?a)\<lparr>sleeps := sleeps (snd ?a) @ [bf ^ nat (attempt - 1)]\<rparr>
        else snd ?a"
    have c2: "calls ?s2 = calls s + 1"
      by (simp add: calls_sleeps_update download_image_calls)
    show ?thesis
    proof (cases "attempt < n")
      case True
      have nsc: "\<not> (fst (fst ?a) \<or> startswith (snd (fst ?a)) ''skipped'')"
        using sc by (simp add: short_circuits_def)
      have n1: "\<not> n < attempt" using le_n by simp
      have p1: "attempt + 1 \<le> n" using True by simp
      have p2: "1 \<le> attempt + 1" using "1.prems" by simp
      have arith: "calls ?s2 + nat (n + 1 - (attempt + 1)) = calls s + nat (n + 1 - attempt)"
        using c2 True by simp
      from "1.IH" [OF n1 refl refl refl refl nsc p1 p2] show ?thesis
        unfolding retry_loop_retry [OF le_n sc] arith .
    next
      case False
      with le_n have eq: "attempt = n" by simp
      have "retry_loop e url fn meta iid n bf attempt le s =
          ((False, ''failed after '' @ str_int n @ '' retries: '' @ snd (fst ?a)), snd ?a)"
        unfolding retry_loop_retry [OF le_n sc]
        using eq by (simp add: retry_loop_exhausted)
      moreover have "calls (snd ?a) = calls s + nat (n + 1 - attempt)"
        using eq by (simp add: download_image_calls)
      ultimately show ?thesis using sc by auto
    qed
  qed
qed

lemma retry_three_attempts:
  fixes bf :: real
  assumes "\<not> short_circuits (fst (download_image e url fn meta iid s))"
    and "\<not> short_circuits (fst (download_image e url fn meta iid
           ((snd (download_image e url fn meta iid s))
              \<lparr>sleeps := sleeps (snd (download_image e url fn meta iid s)) @ [bf ^ 0]\<rparr>)))"
    and "short_circuits (fst (download_image e url fn meta iid
           ((snd (download_image e url fn meta iid
              ((snd (download_image e url fn meta iid s))
                \<lparr>sleeps := sleeps (snd (download_image e url fn meta iid s)) @ [bf ^ 0]\<rparr>)))
            \<lparr>sleeps := sleeps (snd (download_image e url fn meta iid
              ((snd (download_image e url fn meta iid s))
                \<lparr>sleeps := sleeps (snd (download_image e url fn meta iid s)) @ [bf ^ 0]\<rparr>))) @ [bf ^ 1]\<rparr>)))"
  shows "download_with_retry e url fn meta iid 3 bf s =
      download_image e url fn meta iid
           ((snd (download_image e url fn meta iid
              ((snd (download_image e url fn meta iid s))
                \<lparr>sleeps := sleeps (snd (download_image e url fn meta iid s)) @ [bf ^ 0]\<rparr>)))
            \<lparr>sleeps := sleeps (snd (download_image e url fn meta iid
              ((snd (download_image e url fn meta iid s))
                \<lparr>sleeps := sleeps (snd (download_image e url fn meta iid s)) @ [bf ^ 0]\<rparr>))) @ [bf ^ 1]\<rparr>)"
proof -
  let ?a1 = "download_image e url fn meta iid s"
  let ?s1 = "(snd ?a1)\<lparr>sleeps := sleeps (snd ?a1) @ [bf ^ 0]\<rparr>"
  let ?a2 = "download_image e url fn meta iid ?s1"
  let ?s2 = "(snd ?a2)\<lparr>sleeps := sleeps (snd ?a2) @ [bf ^ 1]\<rparr>"
  have "retry_loop e url fn meta iid 3 bf 1 None s
      = retry_loop e url fn meta iid 3 bf 2 (Some (snd (fst ?a1))) ?s1"
    using retry_loop_retry [of 1 3 e url fn meta iid s bf None, OF _ assms(1)] by simp
  also have "\<dots> = retry_loop e url fn meta iid 3 bf 3 (Some (snd (fst ?a2))) ?s2"
    using retry_loop_retry [of 2 3 e url fn meta iid ?s1 bf "Some (snd (fst ?a1))", OF _ assms(2)]
    by simp
  also have "\<dots> = download_image e url fn meta iid ?s2"
    using retry_loop_short_circuit [of 3 3 e url fn meta iid ?s2 bf, OF _ assms(3)] by simp
  finally show ?thesis
    by (simp add: download_with_retry_def)
qed

lemma state_before_attempt_calls:
  "calls (state_before_attempt e url fn meta iid bf s k) = calls s + k"
  by (induction k) (simp_all add: Let_def calls_sleeps_update download_image_calls)

lemma state_before_attempt_sleeps:
  "sleeps (state_before_attempt e url fn meta iid bf s k) = sleeps s @ map (\<lambda>j. bf ^ j) [0 ..< k]"
  by (induction k) (simp_all add: Let_def download_image_sleeps)

lemma attempt_outcome_calls_sleeps:
  "calls (snd (attempt_outcome e url fn meta iid bf s k)) = calls s + k + 1
   \<and> sleeps (snd (attempt_outcome e url fn meta iid bf s k)) = sleeps s @ map (\<lambda>j. bf ^ j) [0 ..< k]"
  by (simp add: attempt_outcome_def download_image_calls download_image_sleeps
      state_before_attempt_calls state_before_attempt_sleeps)

lemma retry_loop_next_attempt:
  assumes "int j + 1 < n"
    and "\<not> short_circuits (fst (attempt_outcome e url fn meta iid bf s j))"
  shows "retry_loop e url fn meta iid n bf (int j + 1) le (state_before_attempt e url fn meta iid bf s j)
     = retry_loop e url fn meta iid n bf (int (Suc j) + 1)
         (Some (snd (fst (attempt_outcome e url fn meta iid bf s j))))
         (state_before_attempt e url fn meta iid bf s (Suc j))"
proof -
  have le_n: "int j + 1 \<le> n" using assms(1) by simp
  have nsc: "\<not> short_circuits (fst (download_image e url fn meta iid
      (state_before_attempt e url fn meta iid bf s j)))"
    using assms(2) by (simp add: attempt_outcome_def)
  show ?thesis
    unfolding retry_loop_retry [OF le_n nsc]
    using assms(1) by (simp add: attempt_outcome_def Let_def add.commute)
qed

lemma loop_first_success:
  assumes "m < nat n" and "j \<le> m"
    and "\<forall>k. j \<le> k \<and> k < m \<longrightarrow> \<not> short_circuits (fst (attempt_outcome e url fn meta iid bf s k))"
    and "short_circuits (fst (attempt_outcome e url fn meta iid bf s m))"
  shows "retry_loop e url fn meta iid n bf (int j + 1) le (state_before_attempt e url fn meta iid bf s j)
     = attempt_outcome e url fn meta iid bf s m"
  using assms
proof (induction "m - j" arbitrary: j le)
  case 0
  then have jm: "j = m" by simp
  have le_n: "int m + 1 \<le> n" using "0.prems"(1) by simp
  have sc: "short_circuits (fst (download_image e url fn meta iid
      (state_before_attempt e url fn meta iid bf s m)))"
    using "0.prems"(4) by (simp add: attempt_outcome_def)
  show ?case
    unfolding jm retry_loop_short_circuit [OF le_n sc]
    by (simp add: attempt_outcome_def)
next
  case (Suc d)
  then have lt: "j < m" by simp
  with Suc.prems(3) have nsc: "\<not> short_circuits (fst (attempt_outcome e url fn meta iid bf s j))"
    by simp
  have below: "int j + 1 < n" using lt Suc.prems(1) by simp
  have rest: "\<forall>k. Suc j \<le> k \<and> k < m \<longrightarrow>
      \<not> short_circuits (fst (attempt_outcome e url fn meta iid bf s k))"
    using Suc.prems(3) by simp
  have d: "d = m - Suc j" using Suc.hyps(2) by simp
  have sj: "Suc j \<le> m" using lt by simp
  show ?case
    unfolding retry_loop_next_attempt [OF below nsc]
    by (rule Suc.hyps(1) [OF d Suc.prems(1) sj rest Suc.prems(4)])
qed

lemma loop_all_fail:
  assumes "j < nat n"
    and "\<forall>k. j \<le> k \<and> k < nat n \<longrightarrow> \<not> short_circuits (fst (attempt_outcome e url fn meta iid bf s k))"
  shows "retry_loop e url fn meta iid n bf (int j + 1) le (state_before_attempt e url fn meta iid bf s j)
     = ((False, ''failed after '' @ str_int n @ '' retries: ''
          @ snd (fst (attempt_outcome e url fn meta iid bf s (nat n - 1)))),
        snd (attempt_outcome e url fn meta iid bf s (nat n - 1)))"
  using assms
proof (induction "nat n - 1 - j" arbitrary: j le)
  case 0
  then have last: "j = nat n - 1" by simp
  with "0.prems"(1) have eq: "int j + 1 = n" by simp
  have le_n: "int j + 1 \<le> n" using eq by simp
  have nsc: "\<not> short_circuits (fst (download_image e url fn meta iid
      (state_before_attempt e url fn meta iid bf s j)))"
    using "0.prems" by (simp add: attempt_outcome_def)
  show ?case
    unfolding retry_loop_retry [OF le_n nsc]
    using eq last by (simp add: retry_loop_exhausted attempt_outcome_def)
next
  case (Suc d)
  then have lt: "Suc j < nat n" by simp
  have nsc: "\<not> short_circuits (fst (attempt_outcome e url fn meta iid bf s j))"
    using Suc.prems by simp
  have below: "int j + 1 < n" using lt by simp
  have rest: "\<forall>k. Suc j \<le> k \<and> k < nat n \<longrightarrow>
      \<not> short_circuits (fst (attempt_outcome e url fn meta iid bf s k))"
    using Suc.prems(2) by simp
  have d: "d = nat n - 1 - Suc j" using Suc.hyps(2) by simp
  show ?case
    unfolding retry_loop_next_attempt [OF below nsc]
    by (rule Suc.hyps(1) [OF d lt rest])
qed

lemma download_with_retry_first_success:
  assumes "m < nat n"
    and "\<forall>k<m. \<not> short_circuits (fst (attempt_outcome e url fn meta iid bf s k))"
    and "short_circuits (fst (attempt_outcome e url fn meta iid bf s m))"
  shows "download_with_retry e url fn meta iid n bf s = attempt_outcome e url fn meta iid bf s m"
  using loop_first_success [of m n 0 e url fn meta iid bf s None] assms
  by (simp add: download_with_retry_def)

lemma download_with_retry_all_fail:
  assumes "1 \<le> n"
    and "\<forall>k<nat n. \<not> short_circuits (fst (attempt_outcome e url fn meta iid bf s k))"
  shows "download_with_retry e url fn meta iid n bf s =
      ((False, ''failed after '' @ str_int n @ '' retries: ''
          @ snd (fst (attempt_outcome e url fn meta iid bf s (nat n - 1)))),
        snd (attempt_outcome e url fn meta iid bf s (nat n - 1)))"
  using loop_all_fail [of 0 n e url fn meta iid bf s None] assms
  by (simp add: download_with_retry_def)

lemma download_with_retry_no_attempt:
  assumes "n < 1"
  shows "download_with_retry e url fn meta iid n bf s =
      ((False, ''failed after '' @ str_int n @ '' retries: None''), s)"
  using assms by (simp add: download_with_retry_def retry_loop_exhausted)

text \<open>
  Claim C3. Write attempt \<open>k + 1\<close> for the single attempt made after \<open>k\<close> failed attempts,
  each of them followed by its sleep, the sleep after attempt number \<open>j\<close> lasting the
  back-off factor to the power \<open>j - 1\<close>. The retry wrapper returns the outcome of the
  first attempt, among the first \<open>max_retries\<close>, that succeeds or whose status starts
  with "skipped", exactly as that attempt gives it: no attempt and no sleep follows it.
  When all \<open>max_retries\<close> attempts fail, the result is a failure whose text ends with the
  status of the last attempt, and no sleep follows the last attempt. With no attempt
  allowed the result is a failure at once. Attempt \<open>k + 1\<close> is the call number \<open>k + 1\<close> of
  the single-attempt download and leaves exactly the sleeps of exponents 0 to \<open>k - 1\<close>.
  So at most \<open>max_retries\<close> attempts are made, and with three attempts allowed two
  failures followed by a success give that success and exactly the two sleeps of
  exponents 0 and 1.
\<close>

theorem download_with_retry_attempts_and_backoff:
  fixes bf :: real
  shows
  "(m < nat n \<and> (\<forall>k<m. \<not> short_circuits (fst (attempt_outcome e url fn meta iid bf s k)))
      \<and> short_circuits (fst (attempt_outcome e url fn meta iid bf s m)) \<longrightarrow>
        download_with_retry e url fn meta iid n bf s = attempt_outcome e url fn meta iid bf s m)
   \<and> (1 \<le> n \<and> (\<forall>k<nat n. \<not> short_circuits (fst (attempt_outcome e url fn meta iid bf s k))) \<longrightarrow>
        download_with_retry e url fn meta iid n bf s =
          ((False, ''failed after '' @ str_int n @ '' retries: ''
              @ snd (fst (attempt_outcome e url fn meta iid bf s (nat n - 1)))),
           snd (attempt_outcome e url fn meta iid bf s (nat n - 1))))
   \<and> (n < 1 \<longrightarrow>
        download_with_retry e url fn meta iid n bf s =
          ((False, ''failed after '' @ str_int n @ '' retries: None''), s))
   \<and> calls (snd (attempt_outcome e url fn meta iid bf s j)) = calls s + j + 1
   \<and> sleeps (snd (attempt_outcome e url fn meta iid bf s j)) = sleeps s @ map (\<lambda>i. bf ^ i) [0 ..< j]
   \<and> (\<exists>made. calls (snd (download_with_retry e url fn meta iid n bf s)) = calls s + made
       \<and> int made \<le> max 0 n
       \<and> sleeps (snd (download_with_retry e url fn meta iid n bf s))
           = sleeps s @ map (\<lambda>j. bf ^ j) [0 ..< made - 1])
   \<and> (1 \<le> n \<longrightarrow>
        (\<exists>s_last.
           (short_circuits (fst (download_image e url fn meta iid s_last))
             \<and> download_with_retry e url fn meta iid n bf s = download_image e url fn meta iid s_last)
         \<or> (\<not> short_circuits (fst (download_image e url fn meta iid s_last))
             \<and> calls (snd (download_with_retry e url fn meta iid n bf s)) = calls s + nat n
             \<and> download_with_retry e url fn meta iid n bf s =
                 ((False, ''failed after '' @ str_int n @ '' retries: ''
                     @ snd (fst (download_image e url fn meta iid s_last))),
                  snd (download_image e url fn meta iid s_last)))))
   \<and> (1 \<le> n \<and> short_circuits (fst (download_image e url fn meta iid s)) \<longrightarrow>
        download_with_retry e url fn meta iid n bf s = download_image e url fn meta iid s)
   \<and> (let a1 = download_image e url fn meta iid s;
           a2 = download_image e url fn meta iid ((snd a1)\<lparr>sleeps := sleeps (snd a1) @ [bf ^ 0]\<rparr>);
           a3 = download_image e url fn meta iid ((snd a2)\<lparr>sleeps := sleeps (snd a2) @ [bf ^ 1]\<rparr>)
       in \<not> short_circuits (fst a1) \<and> \<not> short_circuits (fst a2) \<and> fst (fst a3) \<longrightarrow>
            download_with_retry e url fn meta iid 3 bf s = a3
            \<and> fst (fst (download_with_retry e url fn meta iid 3 bf s))
            \<and> sleeps (snd (download_with_retry e url fn meta iid 3 bf s)) = sleeps s @ [bf ^ 0, bf ^ 1])"
proof (intro conjI impI)
  assume "m < nat n \<and> (\<forall>k<m. \<not> short_circuits (fst (attempt_outcome e url fn meta iid bf s k)))
      \<and> short_circuits (fst (attempt_outcome e url fn meta iid bf s m))"
  then show "download_with_retry e url fn meta iid n bf s = attempt_outcome e url fn meta iid bf s m"
    by (intro download_with_retry_first_success) simp_all
next
  assume "1 \<le> n \<and> (\<forall>k<nat n. \<not> short_circuits (fst (attempt_outcome e url fn meta iid bf s k)))"
  then show "download_with_retry e url fn meta iid n bf s =
          ((False, ''failed after '' @ str_int n @ '' retries: ''
              @ snd (fst (attempt_outcome e url fn meta iid bf s (nat n - 1)))),
           snd (attempt_outcome e url fn meta iid bf s (nat n - 1)))"
    by (intro download_with_retry_all_fail) simp_all
next
  assume "n < 1"
  then show "download_with_retry e url fn meta iid n bf s =
          ((False, ''failed after '' @ str_int n @ '' retries: None''), s)"
    by (rule download_with_retry_no_attempt)
next
  show "calls (snd (attempt_outcome e url fn meta iid bf s j)) = calls s + j + 1"
    using attempt_outcome_calls_sleeps [of e url fn meta iid bf s j] by simp
next
  show "sleeps (snd (attempt_outcome e url fn meta iid bf s j)) = sleeps s @ map (\<lambda>i. bf ^ i) [0 ..< j]"
    using attempt_outcome_calls_sleeps [of e url fn meta iid bf s j] by simp
next
  from retry_loop_law [of 1 e url fn meta iid n bf None s]
  obtain k where k: "calls (snd (retry_loop e url fn meta iid n bf 1 None s)) = calls s + k"
    "k \<le> nat (n + 1 - 1)"
    "sleeps (snd (retry_loop e url fn meta iid n bf 1 None s))
       = sleeps s @ map (\<lambda>j. bf ^ j) [nat (1 - 1) ..< nat (1 - 1) + (k - 1)]"
    by auto
  from k(2) have "int k \<le> max 0 n" by simp
  with k(1) k(3)
  show "\<exists>made. calls (snd (download_with_retry e url fn meta iid n bf s)) = calls s + made
       \<and> int made \<le> max 0 n
       \<and> sleeps (snd (download_with_retry e url fn meta iid n bf s))
           = sleeps s @ map (\<lambda>j. bf ^ j) [0 ..< made - 1]"
    unfolding download_with_retry_def by (intro exI [of _ k]) simp
next
  assume n: "1 \<le> n"
  have "nat (n + 1 - 1) = nat n" by simp
  with retry_loop_outcome [OF n, of e url fn meta iid bf None s]
  show "\<exists>s_last.
           (short_circuits (fst (download_image e url fn meta iid s_last))
             \<and> download_with_retry e url fn meta iid n bf s = download_image e url fn meta iid s_last)
         \<or> (\<not> short_circuits (fst (download_image e url fn meta iid s_last))
             \<and> calls (snd (download_with_retry e url fn meta iid n bf s)) = calls s + nat n
             \<and> download_with_retry e url fn meta iid n bf s =
                 ((False, ''failed after '' @ str_int n @ '' retries: ''
                     @ snd (fst (download_image e url fn meta iid s_last))),
                  snd (download_image e url fn meta iid s_last)))"
    unfolding download_with_retry_def by simp
next
  assume "1 \<le> n \<and> short_circuits (fst (download_image e url fn meta iid s))"
  then show "download_with_retry e url fn meta iid n bf s = download_image e url fn meta iid s"
    unfolding download_with_retry_def by (simp add: retry_loop_short_circuit)
next
  let ?a1 = "download_image e url fn meta iid s"
  let ?s1 = "(snd ?a1)\<lparr>sleeps := sleeps (snd ?a1) @ [bf ^ 0]\<rparr>"
  let ?a2 = "download_image e url fn meta iid ?s1"
  let ?s2 = "(snd ?a2)\<lparr>sleeps := sleeps (snd ?a2) @ [bf ^ 1]\<rparr>"
  let ?a3 = "download_image e url fn meta iid ?s2"
  have "download_with_retry e url fn meta iid 3 bf s = ?a3
       \<and> fst (fst (download_with_retry e url fn meta iid 3 bf s))
       \<and> sleeps (snd (download_with_retry e url fn meta iid 3 bf s)) = sleeps s @ [bf ^ 0, bf ^ 1]"
    if h: "\<not> short_circuits (fst ?a1) \<and> \<not> short_circuits (fst ?a2) \<and> fst (fst ?a3)"
  proof -
    from h have sc3: "short_circuits (fst ?a3)" by (simp add: short_circuits_def)
    have eq: "download_with_retry e url fn meta iid 3 bf s = ?a3"
      using h sc3 by (intro retry_three_attempts) simp_all
    have "sleeps (snd ?a3) = sleeps s @ [bf ^ 0, bf ^ 1]"
      by (simp add: download_image_sleeps)
    with eq h show ?thesis by simp
  qed
  then show "let a1 = download_image e url fn meta iid s;
           a2 = download_image e url fn meta iid ((snd a1)\<lparr>sleeps := sleeps (snd a1) @ [bf ^ 0]\<rparr>);
           a3 = download_image e url fn meta iid ((snd a2)\<lparr>sleeps := sleeps (snd a2) @ [bf ^ 1]\<rparr>)
       in \<not> short_circuits (fst a1) \<and> \<not> short_circuits (fst a2) \<and> fst (fst a3) \<longrightarrow>
            download_with_retry e url fn meta iid 3 bf s = a3
            \<and> fst (fst (download_with_retry e url fn meta iid 3 bf s))
            \<and> sleeps (snd (download_with_retry e url fn meta iid 3 bf s)) = sleeps s @ [bf ^ 0, bf ^ 1]"
    unfolding Let_def by blast
qed

text \<open>
  C3 on a network whose first two requests time out and whose third delivers a PNG, with
  three attempts, two attempts and no attempt allowed, and on a network that delivers at
  once.
\<close>

theorem download_with_retry_witness:
  "\<not> short_circuits (fst (attempt_outcome flaky_env (PStr ''u'') ''civitai_1.tmp'' None (PInt 1) 2 sample_scraper 0))
   \<and> \<not> short_circuits (fst (attempt_outcome flaky_env (PStr ''u'') ''civitai_1.tmp'' None (PInt 1) 2 sample_scraper 1))
   \<and> short_circuits (fst (attempt_outcome flaky_env (PStr ''u'') ''civitai_1.tmp'' None (PInt 1) 2 sample_scraper 2))
   \<and> fst (attempt_outcome flaky_env (PStr ''u'') ''civitai_1.tmp'' None (PInt 1) 2 sample_scraper 2)
        = (True, ''downloaded'')
   \<and> download_with_retry flaky_env (PStr ''u'') ''civitai_1.tmp'' None (PInt 1) 3 2 sample_scraper
        = attempt_outcome flaky_env (PStr ''u'') ''civitai_1.tmp'' None (PInt 1) 2 sample_scraper 2
   \<and> calls (snd (attempt_outcome flaky_env (PStr ''u'') ''civitai_1.tmp'' None (PInt 1) 2 sample_scraper 2))
        = calls sample_scraper + 2 + 1
   \<and> sleeps (snd (attempt_outcome flaky_env (PStr ''u'') ''civitai_1.tmp'' None (PInt 1) 2 sample_scraper 2))
        = sleeps sample_scraper @ map (\<lambda>i. 2 ^ i) [0 ..< 2]
   \<and> download_with_retry flaky_env (PStr ''u'') ''civitai_1.tmp'' None (PInt 1) 2 2 sample_scraper
        = ((False, ''failed after 2 retries: error: timed out''),
           snd (attempt_outcome flaky_env (PStr ''u'') ''civitai_1.tmp'' None (PInt 1) 2 sample_scraper 1))
   \<and> download_with_retry flaky_env (PStr ''u'') ''civitai_1.tmp'' None (PInt 1) 0 2 sample_scraper
        = ((False, ''failed after 0 retries: None''), sample_scraper)
   \<and> (let a1 = download_image flaky_env (PStr ''u'') ''civitai_1.tmp'' None (PInt 1) sample_scraper;
        a2 = download_image flaky_env (PStr ''u'') ''civitai_1.tmp'' None (PInt 1)
               ((snd a1)\<lparr>sleeps := sleeps (snd a1) @ [2 ^ 0]\<rparr>);
        a3 = download_image flaky_env (PStr ''u'') ''civitai_1.tmp'' None (PInt 1)
               ((snd a2)\<lparr>sleeps := sleeps (snd a2) @ [2 ^ 1]\<rparr>)
    in \<not> short_circuits (fst a1) \<and> \<not> short_circuits (fst a2) \<and> fst (fst a3)
       \<and> fst a3 = (True, ''downloaded'')
       \<and> download_with_retry flaky_env (PStr ''u'') ''civitai_1.tmp'' None (PInt 1) 3 2 sample_scraper = a3
       \<and> sleeps (snd (download_with_retry flaky_env (PStr ''u'') ''civitai_1.tmp'' None (PInt 1) 3 2
            sample_scraper)) = [2 ^ 0, 2 ^ 1])
   \<and> (1::int) \<le> 3
   \<and> short_circuits (fst (download_image steady_env (PStr ''u'') ''civitai_1.tmp'' None (PInt 1) sample_scraper))
   \<and> download_with_retry steady_env (PStr ''u'') ''civitai_1.tmp'' None (PInt 1) 3 2 sample_scraper
       = download_image steady_env (PStr ''u'') ''civitai_1.tmp'' None (PInt 1) sample_scraper"
proof -
  let ?AO = "attempt_outcome flaky_env (PStr ''u'') ''civitai_1.tmp'' None (PInt 1) 2 sample_scraper"
  let ?a1 = "download_image flaky_env (PStr ''u'') ''civitai_1.tmp'' None (PInt 1) sample_scraper"
  let ?a2 = "download_image flaky_env (PStr ''u'') ''civitai_1.tmp'' None (PInt 1)
               ((snd ?a1)\<lparr>sleeps := sleeps (snd ?a1) @ [2 ^ 0]\<rparr>)"
  let ?a3 = "download_image flaky_env (PStr ''u'') ''civitai_1.tmp'' None (PInt 1)
               ((snd ?a2)\<lparr>sleeps := sleeps (snd ?a2) @ [2 ^ 1]\<rparr>)"
  have g0: "\<not> short_circuits (fst (?AO 0))" by code_simp
  have g1: "\<not> short_circuits (fst (?AO 1))" by code_simp
  have g2: "short_circuits (fst (?AO 2))" by code_simp
  have g3: "fst (?AO 2) = (True, ''downloaded'')" by code_simp
  have g4: "snd (fst (?AO 1)) = ''error: timed out''" by code_simp
  have two: "str_int 2 = ''2''" by code_simp
  have zero: "str_int 0 = ''0''" by code_simp
  have below: "\<forall>k<2. \<not> short_circuits (fst (?AO k))"
  proof (intro allI impI)
    fix k :: nat
    assume "k < 2"
    then have "k = 0 \<or> k = 1" by arith
    with g0 g1 show "\<not> short_circuits (fst (?AO k))" by blast
  qed
  have h1: "\<not> short_circuits (fst ?a1)" by code_simp
  have h2: "\<not> short_circuits (fst ?a2)" by code_simp
  have h3: "fst (fst ?a3)" by code_simp
  have h4: "fst ?a3 = (True, ''downloaded'')" by code_simp
  have h5: "short_circuits (fst (download_image steady_env (PStr ''u'') ''civitai_1.tmp'' None (PInt 1)
      sample_scraper))" by code_simp
  have h6: "sleeps sample_scraper = []" by (simp add: sample_scraper_def)
  note t = download_with_retry_attempts_and_backoff
    [where m = 2 and n = 3 and e = flaky_env and url = "PStr ''u''" and fn = "''civitai_1.tmp''"
       and meta = None and iid = "PInt 1" and bf = 2 and s = sample_scraper and j = 2]
  note t2 = download_with_retry_attempts_and_backoff
    [where m = 2 and n = 2 and e = flaky_env and url = "PStr ''u''" and fn = "''civitai_1.tmp''"
       and meta = None and iid = "PInt 1" and bf = 2 and s = sample_scraper and j = 2]
  note t0 = download_with_retry_attempts_and_backoff
    [where m = 2 and n = 0 and e = flaky_env and url = "PStr ''u''" and fn = "''civitai_1.tmp''"
       and meta = None and iid = "PInt 1" and bf = 2 and s = sample_scraper and j = 2]
  note u = download_with_retry_attempts_and_backoff
    [where m = 2 and n = 3 and e = steady_env and url = "PStr ''u''" and fn = "''civitai_1.tmp''"
       and meta = None and iid = "PInt 1" and bf = 2 and s = sample_scraper and j = 2]
  have m3: "(2::nat) < nat 3" by simp
  have n2: "nat 2 = (2::nat)" "(2::nat) - 1 = 1" "(1::int) \<le> 2" "(0::int) < 1" by simp_all
  have d1: "download_with_retry flaky_env (PStr ''u'') ''civitai_1.tmp'' None (PInt 1) 3 2 sample_scraper = ?AO 2"
    using t m3 below g2 by blast
  have d2: "calls (snd (?AO 2)) = calls sample_scraper + 2 + 1"
    using t by blast
  have d3: "sleeps (snd (?AO 2)) = sleeps sample_scraper @ map (\<lambda>i. 2 ^ i) [0 ..< 2]"
    using t by blast
  have "download_with_retry flaky_env (PStr ''u'') ''civitai_1.tmp'' None (PInt 1) 2 2 sample_scraper
        = ((False, ''failed after '' @ str_int 2 @ '' retries: '' @ snd (fst (?AO 1))), snd (?AO 1))"
    using t2 below unfolding n2 using n2(3) by blast
  then have d4: "download_with_retry flaky_env (PStr ''u'') ''civitai_1.tmp'' None (PInt 1) 2 2 sample_scraper
        = ((False, ''failed after 2 retries: error: timed out''), snd (?AO 1))"
    unfolding two g4 by simp
  have "download_with_retry flaky_env (PStr ''u'') ''civitai_1.tmp'' None (PInt 1) 0 2 sample_scraper
        = ((False, ''failed after '' @ str_int 0 @ '' retries: None''), sample_scraper)"
    using t0 n2(4) by blast
  then have d5: "download_with_retry flaky_env (PStr ''u'') ''civitai_1.tmp'' None (PInt 1) 0 2 sample_scraper
        = ((False, ''failed after 0 retries: None''), sample_scraper)"
    unfolding zero by simp
  have c1: "download_with_retry flaky_env (PStr ''u'') ''civitai_1.tmp'' None (PInt 1) 3 2 sample_scraper = ?a3
     \<and> sleeps (snd (download_with_retry flaky_env (PStr ''u'') ''civitai_1.tmp'' None (PInt 1) 3 2
            sample_scraper)) = [] @ [2 ^ 0, 2 ^ 1]"
    using t h1 h2 h3 unfolding Let_def h6 by blast
  have c2: "download_with_retry steady_env (PStr ''u'') ''civitai_1.tmp'' None (PInt 1) 3 2 sample_scraper
       = download_image steady_env (PStr ''u'') ''civitai_1.tmp'' None (PInt 1) sample_scraper"
    using u h5 by simp
  have c3: "(1::int) \<le> 3" by simp
  show ?thesis
    unfolding Let_def using g0 g1 g2 g3 d1 d2 d3 d4 d5 h1 h2 h3 h4 h5 c1 c2 c3 unfolding append_Nil by blast
qed

section \<open>The branches of one attempt\<close>

lemma download_image_duplicate:
  assumes "already_downloaded s image_id = Some status"
  shows "download_image e url filename metadata image_id s =
     ((True, status), s\<lparr>skipped_count := skipped_count s + 1\<rparr>)"
  using assms by (simp add: download_image_def)

lemma download_image_dry_run:
  assumes "already_downloaded s image_id = None" and "dry_run s"
  shows "download_image e url filename metadata image_id s =
     ((True, ''simulated''), s\<lparr>downloaded_count := downloaded_count s + 1\<rparr>)"
  using assms by (simp add: download_image_def)

lemma download_image_fetched:
  assumes "already_downloaded s image_id = None" and "\<not> dry_run s"
    and "remote e (length (requests s)) url = Body chunks"
  shows "download_image e url filename metadata image_id s =
     after_fetch e url filename metadata image_id (temp_filepath s filename) chunks
       (s\<lparr>requests := requests s @ [url]\<rparr>)"
  using assms by (simp add: download_image_def Let_def)

lemma already_downloaded_database:
  assumes "history s = Database db" and "truthy image_id" and "is_downloaded_db db image_id"
  shows "already_downloaded s image_id = Some ''skipped (in database)''"
  using assms by (simp add: already_downloaded_def)

lemma short_circuits_skipped_in_database:
  "short_circuits (True, ''skipped (in database)'')"
  by (simp add: short_circuits_def)

lemma run_task_duplicate:
  assumes "history s = Database db" and "truthy image_id" and "is_downloaded_db db image_id"
    and "enable_retry s \<longrightarrow> 1 \<le> max_retries s"
  shows "run_task e (url, filename, metadata, image_id) s =
     ((True, ''skipped (in database)''), s\<lparr>skipped_count := skipped_count s + 1\<rparr>)"
proof -
  have d: "download_image e url filename metadata image_id s =
     ((True, ''skipped (in database)''), s\<lparr>skipped_count := skipped_count s + 1\<rparr>)"
    by (rule download_image_duplicate) (rule already_downloaded_database [OF assms(1-3)])
  show ?thesis
  proof (cases "enable_retry s")
    case True
    with assms(4) have "1 \<le> max_retries s" by simp
    then have "retry_loop e url filename metadata image_id (max_retries s) 2 1 None s
        = download_image e url filename metadata image_id s"
      by (rule retry_loop_short_circuit) (simp add: d short_circuits_skipped_in_database)
    with True d show ?thesis
      by (simp add: run_task_def download_with_retry_def)
  next
    case False
    with d show ?thesis by (simp add: run_task_def)
  qed
qed

lemma run_tasks_all_duplicates:
  assumes "history s = Database db"
    and "\<forall>t \<in> set tasks. truthy (snd (snd (snd t))) \<and> is_downloaded_db db (snd (snd (snd t)))"
    and "enable_retry s \<longrightarrow> 1 \<le> max_retries s"
  shows "run_tasks e tasks s =
     (replicate (length tasks) (True, ''skipped (in database)''),
      s\<lparr>skipped_count := skipped_count s + length tasks\<rparr>)"
  using assms
proof (induction tasks arbitrary: s)
  case Nil
  then show ?case by simp
next
  case (Cons t ts)
  obtain url filename metadata image_id where t: "t = (url, filename, metadata, image_id)"
    by (cases t) auto
  let ?s1 = "s\<lparr>skipped_count := skipped_count s + 1\<rparr>"
  from Cons.prems t have first: "run_task e t s = ((True, ''skipped (in database)''), ?s1)"
    by (simp add: run_task_duplicate)
  have "run_tasks e ts ?s1 =
     (replicate (length ts) (True, ''skipped (in database)''),
      ?s1\<lparr>skipped_count := skipped_count ?s1 + length ts\<rparr>)"
    using Cons.prems by (intro Cons.IH) simp_all
  with first show ?case by (simp add: Let_def)
qed

section \<open>Re-runs, dry runs and the counters\<close>

text \<open>
  Claim C1. In database mode, let every item of the set have an identifier and a URL, as
  every item taken up by an earlier run has, and let the ledger hold for each identifier
  a row with status success or migrated; let at least one attempt be configured. Then
  \<^verbatim>\<open>download_image\<close> returns the skip outcome for each of the items and changes nothing
  but the skipped counter, and the batch over the whole set reports zero new downloads,
  makes no request, and leaves the skipped counter higher by the number of items.
\<close>

theorem rerun_skips_every_recorded_item:
  assumes "history s = Database db"
    and "\<forall>item \<in> set items. truthy (dict_get item ''id'') \<and> truthy (dict_get item ''url'')
           \<and> is_downloaded_db db (dict_get item ''id'')"
    and "enable_retry s \<longrightarrow> 1 \<le> max_retries s"
  shows "(\<forall>item \<in> set items.
            download_image e url filename metadata (dict_get item ''id'') s =
              ((True, ''skipped (in database)''), s\<lparr>skipped_count := skipped_count s + 1\<rparr>))
       \<and> download_batch e items save_metadata s =
            (0, s\<lparr>skipped_count := skipped_count s + length items\<rparr>)
       \<and> requests (snd (download_batch e items save_metadata s)) = requests s
       \<and> downloaded_count (snd (download_batch e items save_metadata s)) = downloaded_count s
       \<and> skipped_count (snd (download_batch e items save_metadata s)) = skipped_count s + length items"
proof -
  have one: "download_image e url filename metadata (dict_get item ''id'') s =
      ((True, ''skipped (in database)''), s\<lparr>skipped_count := skipped_count s + 1\<rparr>)"
    if "item \<in> set items" for item
    using that assms(1,2)
    by (intro download_image_duplicate already_downloaded_database) auto
  have all_urls: "filter (\<lambda>item. truthy (dict_get item ''url'')) items = items"
    using assms(2) by (simp add: filter_id_conv)
  have tasks: "\<forall>t \<in> set (download_tasks save_metadata items).
      truthy (snd (snd (snd t))) \<and> is_downloaded_db db (snd (snd (snd t)))"
    using assms(2) by (auto simp: download_tasks_def make_task_def Let_def)
  have len: "length (download_tasks save_metadata items) = length items"
    by (simp add: download_tasks_def all_urls)
  have run: "run_tasks e (download_tasks save_metadata items) s =
     (replicate (length items) (True, ''skipped (in database)''),
      s\<lparr>skipped_count := skipped_count s + length items\<rparr>)"
    using run_tasks_all_duplicates [OF assms(1) tasks assms(3)] by (simp add: len)
  have batch: "download_batch e items save_metadata s =
      (0, s\<lparr>skipped_count := skipped_count s + length items\<rparr>)"
    by (simp add: download_batch_def run)
  show ?thesis
    using one by (simp add: batch)
qed

text \<open>C1 on a page of two items, both on record already.\<close>

theorem rerun_skips_witness:
  "history (sample_scraper\<lparr>history := Database recorded_ledger\<rparr>) = Database recorded_ledger
   \<and> list_all (\<lambda>item. truthy (dict_get item ''id'') \<and> truthy (dict_get item ''url'')
           \<and> is_downloaded_db recorded_ledger (dict_get item ''id'')) page_items
   \<and> enable_retry (sample_scraper\<lparr>history := Database recorded_ledger\<rparr>)
   \<and> 1 \<le> max_retries (sample_scraper\<lparr>history := Database recorded_ledger\<rparr>)
   \<and> fst (download_batch steady_env page_items True (sample_scraper\<lparr>history := Database recorded_ledger\<rparr>)) = 0
   \<and> requests (snd (download_batch steady_env page_items True
        (sample_scraper\<lparr>history := Database recorded_ledger\<rparr>))) = []
   \<and> skipped_count (snd (download_batch steady_env page_items True
        (sample_scraper\<lparr>history := Database recorded_ledger\<rparr>))) = 2"
proof -
  let ?s = "sample_scraper\<lparr>history := Database recorded_ledger\<rparr>"
  have h1: "history ?s = Database recorded_ledger" by simp
  have h2: "\<forall>item \<in> set page_items. truthy (dict_get item ''id'') \<and> truthy (dict_get item ''url'')
           \<and> is_downloaded_db recorded_ledger (dict_get item ''id'')"
    by code_simp
  have h3: "enable_retry ?s \<longrightarrow> 1 \<le> max_retries ?s"
    by (simp add: sample_scraper_def)
  have h4: "requests ?s = [] \<and> skipped_count ?s = 0 \<and> length page_items = 2"
    by (simp add: sample_scraper_def page_items_def)
  note t = rerun_skips_every_recorded_item [where e = steady_env and save_metadata = True, OF h1 h2 h3]
  have "fst (download_batch steady_env page_items True ?s) = 0"
    using t by simp
  moreover have "requests (snd (download_batch steady_env page_items True ?s)) = []"
    using t h4 by simp
  moreover have "skipped_count (snd (download_batch steady_env page_items True ?s)) = 2"
    using t h4 by simp
  moreover have "list_all (\<lambda>item. truthy (dict_get item ''id'') \<and> truthy (dict_get item ''url'')
           \<and> is_downloaded_db recorded_ledger (dict_get item ''id'')) page_items"
    using h2 by (simp add: list_all_iff)
  moreover have "enable_retry ?s \<and> 1 \<le> max_retries ?s"
    by (simp add: sample_scraper_def)
  ultimately show ?thesis
    using h1 by blast
qed

lemma two_runs_example:
  "(let first_run = download_batch steady_env page_items True sample_scraper;
        second_run = download_batch steady_env page_items True (snd first_run)
    in fst first_run = 2 \<and> fst second_run = 0
       \<and> skipped_count (snd second_run) = 2
       \<and> downloaded_count (snd second_run) = 2
       \<and> requests (snd second_run) = requests (snd first_run))"
  by code_simp

text \<open>
  Claim C9, as amended. In dry-run mode, for an item that the duplicate check does not
  stop, \<^verbatim>\<open>download_image\<close> does nothing after that check but count: it returns the
  success outcome "simulated" and raises the downloaded counter by one. No request is
  made, nothing is classified, and no file is created, changed or removed.
\<close>

theorem dry_run_only_counts:
  assumes "dry_run s" and "already_downloaded s image_id = None"
  shows "download_image e url filename metadata image_id s =
           ((True, ''simulated''), s\<lparr>downloaded_count := downloaded_count s + 1\<rparr>)
       \<and> requests (snd (download_image e url filename metadata image_id s)) = requests s
       \<and> files (snd (download_image e url filename metadata image_id s)) = files s"
  using assms by (simp add: download_image_dry_run)

text \<open>
  Claim C9 as stated fails: in dry-run mode an item that is not on record is counted as
  downloaded without any request being made, on a network that would have answered.
\<close>

theorem dry_run_makes_no_request:
  "dry_run (sample_scraper\<lparr>dry_run := True\<rparr>)
   \<and> already_downloaded (sample_scraper\<lparr>dry_run := True\<rparr>) (PInt 1) = None
   \<and> remote steady_env 0 (PStr ''https://image.example/1'') = Body [jpeg_payload]
   \<and> fst (download_image steady_env (PStr ''https://image.example/1'') ''civitai_1.tmp'' None (PInt 1)
        (sample_scraper\<lparr>dry_run := True\<rparr>)) = (True, ''simulated'')
   \<and> requests (snd (download_image steady_env (PStr ''https://image.example/1'') ''civitai_1.tmp'' None
        (PInt 1) (sample_scraper\<lparr>dry_run := True\<rparr>))) = []"
  by code_simp

text \<open>C9 on a fresh scraper in dry-run mode.\<close>

theorem dry_run_only_counts_witness:
  "dry_run (sample_scraper\<lparr>dry_run := True\<rparr>)
   \<and> already_downloaded (sample_scraper\<lparr>dry_run := True\<rparr>) (PInt 1) = None
   \<and> download_image steady_env (PStr ''https://image.example/1'') ''civitai_1.tmp'' None (PInt 1)
        (sample_scraper\<lparr>dry_run := True\<rparr>)
       = ((True, ''simulated''), sample_scraper\<lparr>dry_run := True, downloaded_count := 1\<rparr>)"
proof -
  have h1: "dry_run (sample_scraper\<lparr>dry_run := True\<rparr>)" by simp
  have h2: "already_downloaded (sample_scraper\<lparr>dry_run := True\<rparr>) (PInt 1) = None"
    by code_simp
  have h3: "downloaded_count (sample_scraper\<lparr>dry_run := True\<rparr>) + 1 = 1"
    by (simp add: sample_scraper_def)
  from dry_run_only_counts [where e = steady_env and url = "PStr ''https://image.example/1''"
      and filename = "''civitai_1.tmp''" and metadata = None, OF h1 h2]
  show ?thesis using h1 h2 unfolding h3 by simp
qed

text \<open>
  Claim C10. Every call of \<^verbatim>\<open>download_image\<close> raises exactly one of the four outcome
  counters (downloaded, skipped, failed, filtered by type), by exactly one, whichever
  way it returns; so the total of the four counts the calls.
\<close>

theorem download_image_increments_one_counter:
  "one_counter_incremented s (snd (download_image e url filename metadata image_id s))
   \<and> calls (snd (download_image e url filename metadata image_id s)) = calls s + 1"
  by (simp add: download_image_counter download_image_calls)

section \<open>The type filter\<close>

lemma after_fetch_filtered:
  assumes "first_chunk \<noteq> []" and "allowed_types s = Some allowed"
    and "dropWhile (\<lambda>c. c = CHR ''.'') (fst (detect_image_format first_chunk)) \<notin> set allowed"
  shows "after_fetch e url filename metadata image_id temp (first_chunk # chunks) s =
     ((True, ''skipped (type: '' @ dropWhile (\<lambda>c. c = CHR ''.'') (fst (detect_image_format first_chunk))
          @ '')''),
      s\<lparr>files := (files s)(temp := None), filtered_type_count := filtered_type_count s + 1\<rparr>)"
  using assms by (simp add: after_fetch_def Let_def)

text \<open>
  Claim C5, as amended. When an allow-list is configured and the sniffed extension of a
  fetched, non-empty payload is not in it, the worker deletes the temporary file and
  returns a success outcome whose status is "skipped (type: EXT)", EXT being the sniffed
  extension without its dot. The status differs from those of the duplicate skips and of
  every failure. The filtered-by-type counter goes up by exactly one, the other
  counters stay, and the ledger is unchanged, so no row is created.
\<close>

theorem type_filter_skips:
  assumes "already_downloaded s image_id = None" and "\<not> dry_run s"
    and "remote e (length (requests s)) url = Body (first_chunk # chunks)"
    and "first_chunk \<noteq> []"
    and "allowed_types s = Some allowed"
    and "dropWhile (\<lambda>c. c = CHR ''.'') (fst (detect_image_format first_chunk)) \<notin> set allowed"
  shows "download_image e url filename metadata image_id s =
           ((True, ''skipped (type: ''
               @ dropWhile (\<lambda>c. c = CHR ''.'') (fst (detect_image_format first_chunk)) @ '')''),
            s\<lparr>requests := requests s @ [url],
              files := (files s)(temp_filepath s filename := None),
              filtered_type_count := filtered_type_count s + 1\<rparr>)
       \<and> snd (fst (download_image e url filename metadata image_id s))
            \<notin> {''skipped (in database)'', ''skipped (in log)'', ''skipped (exists)''}
       \<and> history (snd (download_image e url filename metadata image_id s)) = history s
       \<and> files (snd (download_image e url filename metadata image_id s)) (temp_filepath s filename) = None
       \<and> filtered_type_count (snd (download_image e url filename metadata image_id s))
            = filtered_type_count s + 1
       \<and> downloaded_count (snd (download_image e url filename metadata image_id s)) = downloaded_count s
       \<and> skipped_count (snd (download_image e url filename metadata image_id s)) = skipped_count s
       \<and> failed_count (snd (download_image e url filename metadata image_id s)) = failed_count s"
proof -
  let ?s1 = "s\<lparr>requests := requests s @ [url]\<rparr>"
  have a: "allowed_types ?s1 = Some allowed" using assms(5) by simp
  have eq: "download_image e url filename metadata image_id s =
           ((True, ''skipped (type: ''
               @ dropWhile (\<lambda>c. c = CHR ''.'') (fst (detect_image_format first_chunk)) @ '')''),
            s\<lparr>requests := requests s @ [url],
              files := (files s)(temp_filepath s filename := None),
              filtered_type_count := filtered_type_count s + 1\<rparr>)"
    unfolding download_image_fetched [OF assms(1-3)]
      after_fetch_filtered [OF assms(4) a assms(6)]
    by simp
  show ?thesis
    unfolding eq by simp
qed

text \<open>
  Claim C5 as stated fails on the status text: with the allow-list ["png"] and a JPEG
  payload the status is "skipped (type: jpg)", not "skipped (filtered by type)".
\<close>

theorem type_filter_status_text:
  "fst (download_image steady_env (PStr ''https://image.example/1'') ''civitai_1.tmp'' None (PInt 1)
         (sample_scraper\<lparr>allowed_types := Some [''png'']\<rparr>)) = (True, ''skipped (type: jpg)'')
   \<and> snd (fst (download_image steady_env (PStr ''https://image.example/1'') ''civitai_1.tmp'' None (PInt 1)
         (sample_scraper\<lparr>allowed_types := Some [''png'']\<rparr>))) \<noteq> ''skipped (filtered by type)''"
  by code_simp

text \<open>C5 with the allow-list ["png"] and a JPEG payload.\<close>

theorem type_filter_skips_witness:
  "already_downloaded (sample_scraper\<lparr>allowed_types := Some [''png'']\<rparr>) (PInt 1) = None
   \<and> \<not> dry_run (sample_scraper\<lparr>allowed_types := Some [''png'']\<rparr>)
   \<and> remote steady_env (length (requests (sample_scraper\<lparr>allowed_types := Some [''png'']\<rparr>)))
        (PStr ''https://image.example/1'') = Body [jpeg_payload]
   \<and> jpeg_payload \<noteq> []
   \<and> allowed_types (sample_scraper\<lparr>allowed_types := Some [''png'']\<rparr>) = Some [''png'']
   \<and> dropWhile (\<lambda>c. c = CHR ''.'') (fst (detect_image_format jpeg_payload)) = ''jpg''
   \<and> ''jpg'' \<notin> set [''png'']
   \<and> fst (download_image steady_env (PStr ''https://image.example/1'') ''civitai_1.tmp'' None (PInt 1)
         (sample_scraper\<lparr>allowed_types := Some [''png'']\<rparr>)) = (True, ''skipped (type: jpg)'')
   \<and> history (snd (download_image steady_env (PStr ''https://image.example/1'') ''civitai_1.tmp'' None
         (PInt 1) (sample_scraper\<lparr>allowed_types := Some [''png'']\<rparr>))) = Database Map.empty
   \<and> filtered_type_count (snd (download_image steady_env (PStr ''https://image.example/1'')
         ''civitai_1.tmp'' None (PInt 1) (sample_scraper\<lparr>allowed_types := Some [''png'']\<rparr>))) = 1"
proof -
  let ?s = "sample_scraper\<lparr>allowed_types := Some [''png'']\<rparr>"
  have h1: "already_downloaded ?s (PInt 1) = None" by code_simp
  have h2: "\<not> dry_run ?s" by (simp add: sample_scraper_def)
  have h3: "remote steady_env (length (requests ?s)) (PStr ''https://image.example/1'')
      = Body (jpeg_payload # [])"
    by (simp add: steady_env_def)
  have h4: "jpeg_payload \<noteq> []" by (simp add: jpeg_payload_def)
  have h5: "allowed_types ?s = Some [''png'']" by simp
  have ext: "dropWhile (\<lambda>c. c = CHR ''.'') (fst (detect_image_format jpeg_payload)) = ''jpg''"
    by (simp add: jpeg_payload_def sniff_eval)
  have h6: "dropWhile (\<lambda>c. c = CHR ''.'') (fst (detect_image_format jpeg_payload)) \<notin> set [''png'']"
    unfolding ext by simp
  have st: "history ?s = Database Map.empty \<and> filtered_type_count ?s = 0"
    by (simp add: sample_scraper_def)
  note t = type_filter_skips [where e = steady_env and filename = "''civitai_1.tmp''"
      and metadata = None, OF h1 h2 h3 h4 h5 h6]
  have c1: "fst (download_image steady_env (PStr ''https://image.example/1'') ''civitai_1.tmp'' None (PInt 1) ?s)
      = (True, ''skipped (type: jpg)'')"
    using t unfolding ext by simp
  have c2: "history (snd (download_image steady_env (PStr ''https://image.example/1'') ''civitai_1.tmp'' None
         (PInt 1) ?s)) = Database Map.empty"
    using t st by simp
  have c3: "filtered_type_count (snd (download_image steady_env (PStr ''https://image.example/1'')
         ''civitai_1.tmp'' None (PInt 1) ?s)) = 1"
    using t st by simp
  have h7: "''jpg'' \<notin> set [''png'']" by simp
  show ?thesis
    using h1 h2 h3 h4 h5 ext h7 c1 c2 c3 by blast
qed

section \<open>A file that is already in place\<close>















lemma log_download_db_without_metadata:
  assumes "bindable url" and "url \<noteq> PNone" and "sqlite_int (int file_size)"
  shows "\<exists>db'. log_download_db db image_id url filepath file_size None status err folder_path = Inr db'"
  using assms by (simp add: log_download_db_def dict_truthy_def bindable_opt_def)



section \<open>A remark on an absent identifier\<close>

text \<open>
  The duplicate check is made only for an identifier that is present: with the
  identifier 0 the ledger is not consulted and the item is fetched.
\<close>

lemma no_identifier_no_duplicate_check:
  "already_downloaded (sample_scraper\<lparr>history := Database [''0'' \<mapsto> r]\<rparr>) (PInt 0) = None"
  by (simp add: already_downloaded_def)

end
